theory Spec2Isabelle
  imports Main "HOL-Library.Word" "HOL-Library.Monad_Syntax"
begin

unbundle bit_operations_syntax

section \<open>Machine types and memory\<close>

text \<open>
  The container code of \<^verbatim>\<open>src/lz4.c\<close> works on \<^verbatim>\<open>uint8_t\<close> buffers and \<^verbatim>\<open>uint32_t\<close>
  lengths. A buffer is the list of bytes that starts at the pointer the C function is given;
  its length is what is really allocated there, which C keeps apart from the length the
  caller declares (\<^verbatim>\<open>src_len\<close>, \<^verbatim>\<open>dest_len\<close>, \<^verbatim>\<open>header_size\<close>). A C \<^verbatim>\<open>int\<close> is a HOL \<open>int\<close>;
  the conversions between \<^verbatim>\<open>uint32_t\<close> and \<^verbatim>\<open>int\<close> are \<open>sint\<close> and \<open>word_of_int\<close>.

  A function that touches memory returns an \<open>option\<close>: \<open>None\<close> stands for a call that has no
  defined result in C, because it reads or writes outside a buffer or uses the null
  compressor context.
\<close>

type_synonym uint8_t = "8 word"
type_synonym uint32_t = "32 word"
type_synonym buffer = "uint8_t list"

definition load :: "buffer \<Rightarrow> nat \<Rightarrow> nat \<Rightarrow> buffer option" where
  \<comment> \<open>the \<open>n\<close> bytes at offset \<open>off\<close>\<close>
  "load mem off n = (if off + n \<le> length mem then Some (take n (drop off mem)) else None)"

definition store :: "buffer \<Rightarrow> nat \<Rightarrow> buffer \<Rightarrow> buffer option" where
  \<comment> \<open>overwrite the bytes at offset \<open>off\<close> with \<open>bs\<close>\<close>
  "store mem off bs =
     (if off + length bs \<le> length mem
      then Some (take off mem @ bs @ drop (off + length bs) mem) else None)"

definition memcpy :: "buffer \<Rightarrow> nat \<Rightarrow> buffer \<Rightarrow> nat \<Rightarrow> nat \<Rightarrow> buffer option" where
  \<comment> \<open>\<^verbatim>\<open>memcpy(dest + doff, src + soff, n)\<close>\<close>
  "memcpy dest doff src soff n = do { bs \<leftarrow> load src soff n; store dest doff bs }"

definition le32_bytes :: "uint32_t \<Rightarrow> buffer" where
  "le32_bytes v = [ucast v, ucast (drop_bit 8 v), ucast (drop_bit 16 v), ucast (drop_bit 24 v)]"

definition le32_word :: "buffer \<Rightarrow> uint32_t" where
  "le32_word bs =
     ucast (bs ! 0) OR push_bit 8 (ucast (bs ! 1)) OR push_bit 16 (ucast (bs ! 2))
       OR push_bit 24 (ucast (bs ! 3))"

definition write_little_endian_32 :: "buffer \<Rightarrow> nat \<Rightarrow> uint32_t \<Rightarrow> buffer option" where
  \<comment> \<open>\<^verbatim>\<open>(*(uint32_t *)(dest)) = v\<close> on a little-endian host, \<open>dest\<close> being \<open>mem + off\<close>\<close>
  "write_little_endian_32 mem off v = store mem off (le32_bytes v)"

definition read_little_endian_32 :: "buffer \<Rightarrow> nat \<Rightarrow> uint32_t option" where
  "read_little_endian_32 mem off = map_option le32_word (load mem off 4)"

section \<open>The external block compressor and hash\<close>

text \<open>
  \<^verbatim>\<open>src/lz4.c\<close> includes the block compressor and the hash from \<^verbatim>\<open>impl/lz4.c\<close>,
  \<^verbatim>\<open>impl/lz4hc.c\<close> and \<^verbatim>\<open>impl/xxhash.c\<close>. They are parameters of the model, one field for
  each function or constant the container code uses. A compressor takes its working state,
  the source bytes, the destination capacity and the acceleration or level; it returns its
  \<^verbatim>\<open>int\<close> result, the bytes it wrote at the destination pointer and its new state. The
  decompressor takes the source bytes and the destination capacity and returns its result
  and the bytes it wrote. The one-shot hash \<^verbatim>\<open>XXH32\<close> takes the bytes and the seed; it is
  the field \<open>XXH32_hash\<close>, a field \<open>XXH32\<close> having an updater of the name \<open>XXH32_update\<close>
  already.
\<close>

record ('ctx, 'xxh) primitives =
  LZ4HC_CLEVEL_MIN :: int
  LZ4_compressBound :: "int \<Rightarrow> int"
  LZ4_initStream :: "'ctx \<Rightarrow> 'ctx"
  LZ4_initStreamHC :: "'ctx \<Rightarrow> 'ctx"
  LZ4_setCompressionLevel :: "'ctx \<Rightarrow> int \<Rightarrow> 'ctx"
  LZ4_attach_dictionary :: "'ctx \<Rightarrow> 'ctx"
  LZ4_compress_fast_extState_fastReset :: "'ctx \<Rightarrow> buffer \<Rightarrow> int \<Rightarrow> int \<Rightarrow> int \<times> buffer \<times> 'ctx"
  LZ4_resetStreamHC_fast :: "'ctx \<Rightarrow> int \<Rightarrow> 'ctx"
  LZ4_attach_HC_dictionary :: "'ctx \<Rightarrow> 'ctx"
  LZ4_compress_HC_extStateHC_fastReset :: "'ctx \<Rightarrow> buffer \<Rightarrow> int \<Rightarrow> int \<Rightarrow> int \<times> buffer \<times> 'ctx"
  LZ4_decompress_safe :: "buffer \<Rightarrow> int \<Rightarrow> int \<times> buffer"
  XXH32_hash :: "buffer \<Rightarrow> uint32_t \<Rightarrow> uint32_t"
  XXH32_reset :: "'xxh \<Rightarrow> uint32_t \<Rightarrow> 'xxh"
  XXH32_update :: "'xxh \<Rightarrow> buffer \<Rightarrow> 'xxh"
  XXH32_digest :: "'xxh \<Rightarrow> uint32_t"

section \<open>Descriptor tables\<close>

text \<open>
  The sixteen 7-byte descriptors of \<^verbatim>\<open>src/lz4.c\<close>, lines 26 to 44. The arrays the source
  calls \<^verbatim>\<open>_64kb\<close>, \<^verbatim>\<open>_256kb\<close>, \<^verbatim>\<open>_1mb\<close> and \<^verbatim>\<open>_4mb\<close> are \<open>hdr_64kb\<close> and so on here,
  since a name cannot start with an underscore.
\<close>

definition hdr_64kb :: buffer where "hdr_64kb = [0x04, 0x22, 0x4d, 0x18, 0x60, 0x40, 0x82]"
definition c_64kb :: buffer where "c_64kb = [0x04, 0x22, 0x4d, 0x18, 0x64, 0x40, 0xa7]"
definition b_64kb :: buffer where "b_64kb = [0x04, 0x22, 0x4d, 0x18, 0x70, 0x40, 0xad]"
definition cb_64kb :: buffer where "cb_64kb = [0x04, 0x22, 0x4d, 0x18, 0x74, 0x40, 0xbd]"

definition hdr_256kb :: buffer where "hdr_256kb = [0x04, 0x22, 0x4d, 0x18, 0x60, 0x50, 0xfb]"
definition c_256kb :: buffer where "c_256kb = [0x04, 0x22, 0x4d, 0x18, 0x64, 0x50, 0x08]"
definition b_256kb :: buffer where "b_256kb = [0x04, 0x22, 0x4d, 0x18, 0x70, 0x50, 0x84]"
definition cb_256kb :: buffer where "cb_256kb = [0x04, 0x22, 0x4d, 0x18, 0x74, 0x50, 0xff]"

definition hdr_1mb :: buffer where "hdr_1mb = [0x04, 0x22, 0x4d, 0x18, 0x60, 0x60, 0x51]"
definition c_1mb :: buffer where "c_1mb = [0x04, 0x22, 0x4d, 0x18, 0x64, 0x60, 0x85]"
definition b_1mb :: buffer where "b_1mb = [0x04, 0x22, 0x4d, 0x18, 0x70, 0x60, 0x33]"
definition cb_1mb :: buffer where "cb_1mb = [0x04, 0x22, 0x4d, 0x18, 0x74, 0x60, 0xd9]"

definition hdr_4mb :: buffer where "hdr_4mb = [0x04, 0x22, 0x4d, 0x18, 0x60, 0x70, 0x73]"
definition c_4mb :: buffer where "c_4mb = [0x04, 0x22, 0x4d, 0x18, 0x64, 0x70, 0xb9]"
definition b_4mb :: buffer where "b_4mb = [0x04, 0x22, 0x4d, 0x18, 0x70, 0x70, 0x72]"
definition cb_4mb :: buffer where "cb_4mb = [0x04, 0x22, 0x4d, 0x18, 0x74, 0x70, 0x8e]"

definition descriptors :: "buffer list" where
  "descriptors =
     [hdr_64kb, c_64kb, b_64kb, cb_64kb, hdr_256kb, c_256kb, b_256kb, cb_256kb,
      hdr_1mb, c_1mb, b_1mb, cb_1mb, hdr_4mb, c_4mb, b_4mb, cb_4mb]"

definition magic_prefix :: buffer where
  "magic_prefix = [0x04, 0x22, 0x4d, 0x18]"

definition descriptor_suffixes :: "buffer list" where
  "descriptor_suffixes = map (drop 4) descriptors"

section \<open>Sessions\<close>

text \<open>
  \<^verbatim>\<open>enum lz4_block_size_s { s64kb = 0, s256kb = 1, s1mb = 2, s4mb = 3 }\<close>. A C enumeration
  is an integer, and \<^verbatim>\<open>_lz4_init\<close> has a branch for a value that is none of the four.
\<close>

type_synonym lz4_block_size_t = int

definition s64kb :: lz4_block_size_t where "s64kb = 0"
definition s256kb :: lz4_block_size_t where "s256kb = 1"
definition s1mb :: lz4_block_size_t where "s1mb = 2"
definition s4mb :: lz4_block_size_t where "s4mb = 3"

text \<open>
  \<^verbatim>\<open>lz4_header_t\<close> of \<^verbatim>\<open>lz4.h\<close>; its fields carry the prefix \<open>h_\<close> to keep them apart from
  the fields of the session. The \<^verbatim>\<open>header\<close> pointer, which points into the descriptor
  tables, is the array it points to.
\<close>

record lz4_header_t =
  h_block_size :: uint32_t
  h_compressed_size :: uint32_t
  h_size :: lz4_block_size_t
  h_block_checksum :: bool
  h_content_checksum :: bool
  h_header :: buffer

text \<open>
  \<^verbatim>\<open>struct lz4_s\<close>. The field \<^verbatim>\<open>size\<close> is \<open>size_s\<close>. \<open>ctx\<close> is \<open>None\<close> for the null pointer
  and otherwise holds the working state of the compressor it points to.
\<close>

record ('ctx, 'xxh) lz4_s =
  size_s :: lz4_block_size_t
  content_checksum :: bool
  block_checksum :: bool
  level :: int
  header :: buffer
  header_size :: uint32_t
  block_size :: uint32_t
  compressed_size :: uint32_t
  block_header_size :: uint32_t
  xxh :: 'xxh
  ctx :: "'ctx option"

definition lz4_get_header :: "('ctx, 'xxh) lz4_s \<Rightarrow> buffer \<times> uint32_t" where
  "lz4_get_header r = (header r, header_size r)"

definition lz4_block_size :: "('ctx, 'xxh) lz4_s \<Rightarrow> uint32_t" where
  "lz4_block_size r = block_size r"

definition lz4_block_header_size :: "('ctx, 'xxh) lz4_s \<Rightarrow> uint32_t" where
  "lz4_block_header_size r = block_header_size r"

definition lz4_compressed_size :: "('ctx, 'xxh) lz4_s \<Rightarrow> uint32_t" where
  "lz4_compressed_size r = compressed_size r + block_header_size r"

section \<open>The block compressor adapter\<close>

text \<open>
  \<^verbatim>\<open>lz4_compress\<close>, lines 83 to 102. \<open>dest\<close> and \<open>off\<close> give the destination pointer
  \<^verbatim>\<open>dest + off\<close>. The source bytes are the \<open>src_len\<close> bytes at \<open>src\<close>; \<open>dest_len\<close> reaches the
  compressor as an \<^verbatim>\<open>int\<close>, and its \<^verbatim>\<open>int\<close> result comes back as a \<^verbatim>\<open>uint32_t\<close>.
\<close>

definition lz4_compress ::
  "('ctx, 'xxh) primitives \<Rightarrow> ('ctx, 'xxh) lz4_s \<Rightarrow> buffer \<Rightarrow> uint32_t \<Rightarrow> buffer \<Rightarrow> nat \<Rightarrow> uint32_t
     \<Rightarrow> (uint32_t \<times> buffer \<times> ('ctx, 'xxh) lz4_s) option" where
  "lz4_compress P l src src_len dest off dest_len = do {
     c \<leftarrow> ctx l;
     s \<leftarrow> load src 0 (unat src_len);
     let (r, out, c') =
       (if level l < LZ4HC_CLEVEL_MIN P then
          let c1 = LZ4_attach_dictionary P c;
              acceleration = (if level l < 0 then - level l + 1 else 1)
          in LZ4_compress_fast_extState_fastReset P c1 s (sint dest_len) acceleration
        else
          let c1 = LZ4_resetStreamHC_fast P c (level l);
              c2 = LZ4_attach_HC_dictionary P c1
          in LZ4_compress_HC_extStateHC_fastReset P c2 s (sint dest_len) (level l));
     dest' \<leftarrow> store dest off out;
     Some (word_of_int r, dest', l\<lparr>ctx := Some c'\<rparr>)
   }"

section \<open>Finishing a stream\<close>

text \<open>
  \<^verbatim>\<open>lz4_finish\<close>, lines 104 to 124: the result and the destination buffer afterwards.
\<close>

definition lz4_finish ::
  "('ctx, 'xxh) primitives \<Rightarrow> ('ctx, 'xxh) lz4_s \<Rightarrow> buffer \<Rightarrow> (int \<times> buffer) option" where
  "lz4_finish P l dest =
     (if ctx l \<noteq> None then do {
        d \<leftarrow> write_little_endian_32 dest 0 0;
        if content_checksum l then do {
          let crc = XXH32_digest P (xxh l);
          d' \<leftarrow> write_little_endian_32 d 4 crc;
          Some (8, d')
        } else Some (4, d)
      } else
        if content_checksum l then do {
          let crc = XXH32_digest P (xxh l);
          content_crc \<leftarrow> read_little_endian_32 dest 0;
          if crc \<noteq> content_crc then Some (- 500, dest) else Some (0, dest)
        } else Some (0, dest))"

section \<open>The block codec\<close>

text \<open>
  \<^verbatim>\<open>lz4_decompress\<close>, lines 152 to 173. \<open>lz4_decompress_payload\<close> is the second half of the
  function, lines 163 to 172, which runs with the source length left by the checksum test.
  The result is the \<^verbatim>\<open>int\<close> returned, the destination buffer and the session afterwards.
  With the block checksum on and \<open>src_len\<close> below 4 the pointer \<^verbatim>\<open>srcp + src_len - 4\<close> lies
  before the buffer.
\<close>

definition lz4_decompress_payload ::
  "('ctx, 'xxh) primitives \<Rightarrow> ('ctx, 'xxh) lz4_s \<Rightarrow> buffer \<Rightarrow> uint32_t \<Rightarrow> buffer \<Rightarrow> uint32_t \<Rightarrow> bool
     \<Rightarrow> (int \<times> buffer \<times> ('ctx, 'xxh) lz4_s) option" where
  "lz4_decompress_payload P l src src_len dest dest_len compressed = do {
     (r, dest') \<leftarrow>
       (if compressed then do {
          s \<leftarrow> load src 0 (unat src_len);
          let (r, out) = LZ4_decompress_safe P s (sint dest_len);
          d \<leftarrow> store dest 0 out;
          Some (r, d)
        } else do {
          d \<leftarrow> memcpy dest 0 src 0 (unat src_len);
          Some (sint src_len, d)
        });
     if r < 0 then Some (r, dest', l)
     else if content_checksum l then do {
       produced \<leftarrow> load dest' 0 (nat r);
       Some (r, dest', l\<lparr>xxh := XXH32_update P (xxh l) produced\<rparr>)
     } else Some (r, dest', l)
   }"

definition lz4_decompress ::
  "('ctx, 'xxh) primitives \<Rightarrow> ('ctx, 'xxh) lz4_s \<Rightarrow> buffer \<Rightarrow> uint32_t \<Rightarrow> buffer \<Rightarrow> uint32_t \<Rightarrow> bool
     \<Rightarrow> (int \<times> buffer \<times> ('ctx, 'xxh) lz4_s) option" where
  "lz4_decompress P l src src_len dest dest_len compressed =
     (if block_checksum l then
        if unat src_len < 4 then None
        else do {
          checksum \<leftarrow> read_little_endian_32 src (unat src_len - 4);
          payload \<leftarrow> load src 0 (unat (src_len - 4));
          let crc32 = XXH32_hash P payload 0;
          if crc32 \<noteq> checksum then Some (- 500, dest, l)
          else lz4_decompress_payload P l src (src_len - 4) dest dest_len compressed
        }
      else lz4_decompress_payload P l src src_len dest dest_len compressed)"

text \<open>
  \<^verbatim>\<open>lz4_compress_block\<close>, lines 175 to 197. The result is the \<^verbatim>\<open>uint32_t\<close> returned, the
  destination buffer and the session afterwards. \<open>csize\<close> is the variable \<^verbatim>\<open>compressed_size\<close>
  as \<^verbatim>\<open>lz4_compress\<close> returns it and \<open>compressed_size'\<close> the same variable after the test of
  line 184. In this and the following definitions a variable whose name is also that of a
  field of the session carries a prime.
\<close>

definition lz4_compress_block ::
  "('ctx, 'xxh) primitives \<Rightarrow> ('ctx, 'xxh) lz4_s \<Rightarrow> buffer \<Rightarrow> uint32_t \<Rightarrow> buffer \<Rightarrow> uint32_t
     \<Rightarrow> (uint32_t \<times> buffer \<times> ('ctx, 'xxh) lz4_s) option" where
  "lz4_compress_block P l src src_len dest dest_len = do {
     l1 \<leftarrow>
       (if content_checksum l then do {
          s \<leftarrow> load src 0 (unat src_len);
          Some (l\<lparr>xxh := XXH32_update P (xxh l) s\<rparr>)
        } else Some l);
     (csize, dest1, l2) \<leftarrow>
       lz4_compress P l1 src src_len dest 4 (dest_len - block_header_size l1);
     (compressed_size', dest2) \<leftarrow>
       (if csize \<ge> src_len then do {
          d \<leftarrow> write_little_endian_32 dest1 0 (src_len OR 0x80000000);
          d' \<leftarrow> memcpy d 4 src 0 (unat src_len);
          Some (src_len, d')
        } else do {
          d \<leftarrow> write_little_endian_32 dest1 0 csize;
          Some (csize, d)
        });
     dest3 \<leftarrow>
       (if block_checksum l2 then do {
          payload \<leftarrow> load dest2 4 (unat compressed_size');
          let crc32 = XXH32_hash P payload 0;
          write_little_endian_32 dest2 (4 + unat compressed_size') crc32
        } else Some dest2);
     Some (compressed_size' + block_header_size l2, dest3, l2)
   }"

section \<open>Recognising a descriptor\<close>

text \<open>
  \<^verbatim>\<open>lz4_check_header\<close>, lines 199 to 306. \<open>r\<close> is the structure the caller passes to be
  filled, \<open>None\<close> for the null pointer. The outer \<open>option\<close> is that of a memory access; inside
  it, \<open>None\<close> is the result \<^verbatim>\<open>false\<close> and \<open>Some r'\<close> the result \<^verbatim>\<open>true\<close> with the structure as
  the function leaves it. The four branches on \<^verbatim>\<open>h[5]\<close> choose the block size, the table
  entry and the two flags; the assignments after them are those of lines 299 to 304, which
  leave the field \<^verbatim>\<open>size\<close> of the structure as it was.
\<close>

definition lz4_check_header ::
  "('ctx, 'xxh) primitives \<Rightarrow> lz4_header_t option \<Rightarrow> buffer \<Rightarrow> uint32_t \<Rightarrow> lz4_header_t option option"
  where
  "lz4_check_header P r header' header_size' =
     (if header_size' \<noteq> 7 \<or> r = None then Some None
      else if length header' < 7 then None
      else
        let h = header' in
        if h ! 0 \<noteq> hdr_64kb ! 0 \<or> h ! 1 \<noteq> hdr_64kb ! 1 \<or> h ! 2 \<noteq> hdr_64kb ! 2 \<or>
           h ! 3 \<noteq> hdr_64kb ! 3
        then Some None
        else
          case
         (if h ! 5 = 0x40 then
            (if h ! 4 = hdr_64kb ! 4 \<and> h ! 6 = hdr_64kb ! 6 then Some (64 * 1024, hdr_64kb, False, False)
             else if h ! 4 = b_64kb ! 4 \<and> h ! 6 = b_64kb ! 6 then Some (64 * 1024, b_64kb, True, False)
             else if h ! 4 = c_64kb ! 4 \<and> h ! 6 = c_64kb ! 6 then Some (64 * 1024, c_64kb, False, True)
             else if h ! 4 = cb_64kb ! 4 \<and> h ! 6 = cb_64kb ! 6 then Some (64 * 1024, cb_64kb, True, True)
             else None)
          else if h ! 5 = 0x50 then
            (if h ! 4 = hdr_256kb ! 4 \<and> h ! 6 = hdr_256kb ! 6 then Some (256 * 1024, hdr_256kb, False, False)
             else if h ! 4 = b_256kb ! 4 \<and> h ! 6 = b_256kb ! 6 then Some (256 * 1024, b_256kb, True, False)
             else if h ! 4 = c_256kb ! 4 \<and> h ! 6 = c_256kb ! 6 then Some (256 * 1024, c_256kb, False, True)
             else if h ! 4 = cb_256kb ! 4 \<and> h ! 6 = cb_256kb ! 6 then Some (256 * 1024, cb_256kb, True, True)
             else None)
          else if h ! 5 = 0x60 then
            (if h ! 4 = hdr_1mb ! 4 \<and> h ! 6 = hdr_1mb ! 6 then Some (1024 * 1024, hdr_1mb, False, False)
             else if h ! 4 = b_1mb ! 4 \<and> h ! 6 = b_1mb ! 6 then Some (1024 * 1024, b_1mb, True, False)
             else if h ! 4 = c_1mb ! 4 \<and> h ! 6 = c_1mb ! 6 then Some (1024 * 1024, c_1mb, False, True)
             else if h ! 4 = cb_1mb ! 4 \<and> h ! 6 = cb_1mb ! 6 then Some (1024 * 1024, cb_1mb, True, True)
             else None)
          else if h ! 5 = 0x70 then
            (if h ! 4 = hdr_4mb ! 4 \<and> h ! 6 = hdr_4mb ! 6 then Some (4 * 1024 * 1024, hdr_4mb, False, False)
             else if h ! 4 = b_4mb ! 4 \<and> h ! 6 = b_4mb ! 6 then Some (4 * 1024 * 1024, b_4mb, True, False)
             else if h ! 4 = c_4mb ! 4 \<and> h ! 6 = c_4mb ! 6 then Some (4 * 1024 * 1024, c_4mb, False, True)
             else if h ! 4 = cb_4mb ! 4 \<and> h ! 6 = cb_4mb ! 6 then Some (4 * 1024 * 1024, cb_4mb, True, True)
             else None)
          else None)
          of
            None \<Rightarrow> Some None
          | Some (block_size', headerp, block_checksum', content_checksum') \<Rightarrow>
              let compressed_size' = word_of_int (LZ4_compressBound P (sint block_size')) in
              Some (map_option (\<lambda>r. r\<lparr>h_compressed_size := compressed_size',
                                       h_block_size := block_size',
                                       h_block_checksum := block_checksum',
                                       h_content_checksum := content_checksum',
                                       h_header := headerp\<rparr>) r))"

section \<open>Creating sessions\<close>

text \<open>
  \<^verbatim>\<open>_lz4_init_decompress\<close>, lines 312 to 336, which the macro \<^verbatim>\<open>lz4_init_decompress\<close>
  calls. \<open>h0\<close> is the local \<^verbatim>\<open>lz4_header_t h\<close> before \<^verbatim>\<open>lz4_check_header\<close> fills it, and
  \<open>r0\<close> the structure \<^verbatim>\<open>aml_malloc\<close> returns, neither initialised by the function: a field
  the function does not assign keeps the value it has there. The allocation is taken to
  succeed. The outer \<open>option\<close> is that of \<open>lz4_check_header\<close>; inside it, \<open>None\<close> is the
  null pointer.
\<close>

definition lz4_init_decompress ::
  "('ctx, 'xxh) primitives \<Rightarrow> buffer \<Rightarrow> uint32_t \<Rightarrow> lz4_header_t \<Rightarrow> ('ctx, 'xxh) lz4_s
     \<Rightarrow> ('ctx, 'xxh) lz4_s option option" where
  "lz4_init_decompress P header' header_size' h0 r0 = do {
     checked \<leftarrow> lz4_check_header P (Some h0) header' header_size';
     case checked of
       None \<Rightarrow> Some None
     | Some h \<Rightarrow>
         let r = r0\<lparr>ctx := None,
                    level := 1,
                    block_size := h_block_size h,
                    compressed_size := h_compressed_size h,
                    size_s := h_size h,
                    content_checksum := h_content_checksum h,
                    block_checksum := h_block_checksum h,
                    block_header_size := (if h_block_checksum h then 4 else 0),
                    header := h_header h,
                    header_size := 7\<rparr>
         in Some (Some (if h_content_checksum h then r\<lparr>xxh := XXH32_reset P (xxh r) 0\<rparr>
                        else r))
   }"

text \<open>
  \<^verbatim>\<open>_lz4_init\<close>, lines 342 to 401, which the macro \<^verbatim>\<open>lz4_init\<close> calls. \<open>r0\<close> is the
  structure \<^verbatim>\<open>aml_malloc\<close> returns and \<open>m\<close> the memory after it, which becomes the
  compressor's working state; the allocation is taken to succeed. \<open>None\<close> is the null
  pointer.
\<close>

definition lz4_init ::
  "('ctx, 'xxh) primitives \<Rightarrow> int \<Rightarrow> lz4_block_size_t \<Rightarrow> bool \<Rightarrow> bool \<Rightarrow> ('ctx, 'xxh) lz4_s \<Rightarrow> 'ctx
     \<Rightarrow> ('ctx, 'xxh) lz4_s option" where
  "lz4_init P level' size' block_checksum' content_checksum' r0 m =
     (case
       (if size' = s64kb then
          Some (if \<not> content_checksum'
                then (if block_checksum' then b_64kb else hdr_64kb)
                else (if block_checksum' then cb_64kb else c_64kb), 64 * 1024)
        else if size' = s256kb then
          Some (if \<not> content_checksum'
                then (if block_checksum' then b_256kb else hdr_256kb)
                else (if block_checksum' then cb_256kb else c_256kb), 256 * 1024)
        else if size' = s1mb then
          Some (if \<not> content_checksum'
                then (if block_checksum' then b_1mb else hdr_1mb)
                else (if block_checksum' then cb_1mb else c_1mb), 1024 * 1024)
        else if size' = s4mb then
          Some (if \<not> content_checksum'
                then (if block_checksum' then b_4mb else hdr_4mb)
                else (if block_checksum' then cb_4mb else c_4mb), 4 * 1024 * 1024)
        else None)
      of
        None \<Rightarrow> None
      | Some (header', block_size') \<Rightarrow>
          let compressed_size' = word_of_int (LZ4_compressBound P (sint block_size'));
              r = r0\<lparr>ctx := Some m,
                     level := level',
                     block_size := block_size',
                     compressed_size := compressed_size',
                     size_s := size',
                     content_checksum := content_checksum',
                     block_checksum := block_checksum',
                     block_header_size := 4 + (if block_checksum' then 4 else 0),
                     header := header',
                     header_size := 7\<rparr>
          in if level' < LZ4HC_CLEVEL_MIN P
             then Some (r\<lparr>ctx := Some (LZ4_initStream P m)\<rparr>)
             else Some (r\<lparr>ctx := Some (LZ4_setCompressionLevel P (LZ4_initStreamHC P m) level')\<rparr>))"

section \<open>The caller's side of a block\<close>

text \<open>
  \<^verbatim>\<open>lz4.h\<close> leaves the length field to the caller of \<^verbatim>\<open>lz4_decompress\<close>: "caller is
  expected to read block size in advance and compute src_len. If block_size has high bit,
  block is uncompressed and high bit should be unset." \<open>read_block\<close> is that caller for one
  block as \<open>lz4_compress_block\<close> writes it: it reads the length field, clears the high bit,
  takes the payload and, in a session with block checksums, the four bytes after it, which
  is \<open>lz4_block_header_size\<close> of a decompression session, and decodes them into \<open>dest\<close>.
\<close>

definition read_block ::
  "('ctx, 'xxh) primitives \<Rightarrow> ('ctx, 'xxh) lz4_s \<Rightarrow> buffer \<Rightarrow> buffer \<Rightarrow> uint32_t
     \<Rightarrow> (int \<times> buffer \<times> ('ctx, 'xxh) lz4_s) option" where
  "read_block P d block dest dest_len = do {
     field \<leftarrow> read_little_endian_32 block 0;
     let compressed = (field AND 0x80000000 = 0);
     let src_len = (field AND 0x7fffffff) + lz4_block_header_size d;
     src \<leftarrow> load block 4 (unat src_len);
     lz4_decompress P d src src_len dest dest_len compressed
   }"

section \<open>What the container code expects of the block compressor\<close>

text \<open>
  The contract of the external block compressor, for both compressors and every working
  state, source, capacity and acceleration or level: the compressor never writes more than
  the capacity it is given; when its result \<open>r\<close> is positive it wrote exactly \<open>r\<close> bytes, and
  the decompressor turns these bytes back into the source, for every destination capacity
  that holds the source; and it does not fail on a source of at most 4MB, the largest block
  size, when the capacity is at least \<^verbatim>\<open>LZ4_compressBound\<close> of the source length.
\<close>

definition block_codec_ok :: "('ctx, 'xxh) primitives \<Rightarrow> bool" where
  "block_codec_ok P \<longleftrightarrow>
     (\<forall>c s cap a r out c'.
        (LZ4_compress_fast_extState_fastReset P c s cap a = (r, out, c') \<or>
         LZ4_compress_HC_extStateHC_fastReset P c s cap a = (r, out, c')) \<longrightarrow>
        int (length out) \<le> max 0 cap \<and>
        (0 < r \<longrightarrow>
           int (length out) = r \<and>
           (\<forall>cap'. int (length s) \<le> cap' \<longrightarrow>
                   LZ4_decompress_safe P out cap' = (int (length s), s))) \<and>
        (int (length s) \<le> 4194304 \<and> LZ4_compressBound P (int (length s)) \<le> cap \<longrightarrow>
           0 < r))"

section \<open>The caller's side of a stream\<close>

text \<open>
  The loops of a caller that streams a list of blocks through a session. \<open>compress_blocks\<close>
  calls \<open>lz4_compress_block\<close> on each block in turn, with one destination buffer, and
  collects the bytes each call reports as written. \<open>decompress_blocks\<close> hands each encoded
  block to \<open>read_block\<close>, with one destination buffer, stops at a negative result, and
  collects the bytes each call reports as produced.
\<close>

fun compress_blocks ::
  "('ctx, 'xxh) primitives \<Rightarrow> ('ctx, 'xxh) lz4_s \<Rightarrow> buffer list \<Rightarrow> buffer \<Rightarrow> uint32_t
     \<Rightarrow> (buffer list \<times> ('ctx, 'xxh) lz4_s) option" where
  "compress_blocks P l [] dest dest_len = Some ([], l)"
| "compress_blocks P l (b # bs) dest dest_len = do {
     (n, dest', l') \<leftarrow> lz4_compress_block P l b (word_of_nat (length b)) dest dest_len;
     written \<leftarrow> load dest' 0 (unat n);
     (rest, l'') \<leftarrow> compress_blocks P l' bs dest' dest_len;
     Some (written # rest, l'')
   }"

fun decompress_blocks ::
  "('ctx, 'xxh) primitives \<Rightarrow> ('ctx, 'xxh) lz4_s \<Rightarrow> buffer list \<Rightarrow> buffer \<Rightarrow> uint32_t
     \<Rightarrow> (buffer list \<times> ('ctx, 'xxh) lz4_s) option" where
  "decompress_blocks P d [] dest dest_len = Some ([], d)"
| "decompress_blocks P d (blk # blks) dest dest_len = do {
     (r, dest', d') \<leftarrow> read_block P d blk dest dest_len;
     if r < 0 then None
     else do {
       produced \<leftarrow> load dest' 0 (nat r);
       (rest, d'') \<leftarrow> decompress_blocks P d' blks dest' dest_len;
       Some (produced # rest, d'')
     }
   }"

section \<open>A small instance of the primitives\<close>

text \<open>
  Concrete primitives on which the definitions can be run: a block format that stores a run
  of one repeated byte in three bytes and anything else behind a zero byte, a working state
  that counts the blocks compressed, and an FNV-1a hash whose streaming state is the hash
  so far. \<open>demo_r0\<close>, \<open>demo_h0\<close> and \<open>demo_m\<close> are memory contents before initialisation.
\<close>

definition demo_compress :: "nat \<Rightarrow> buffer \<Rightarrow> int \<Rightarrow> int \<Rightarrow> int \<times> buffer \<times> nat" where
  "demo_compress c s cap a =
     (let out = (if s \<noteq> [] \<and> length s < 256 \<and> s = replicate (length s) (hd s)
                 then [1, hd s, of_nat (length s)] else 0 # s)
      in if int (length out) \<le> cap then (int (length out), out, Suc c) else (0, [], Suc c))"

definition demo_decompress :: "buffer \<Rightarrow> int \<Rightarrow> int \<times> buffer" where
  "demo_decompress s cap =
     (case s of
        [] \<Rightarrow> (- 1, [])
      | t # rest \<Rightarrow>
          if t = 0 then
            (if int (length rest) \<le> cap then (int (length rest), rest) else (- 2, []))
          else if t = 1 \<and> length rest = 2 \<and> int (unat (rest ! 1)) \<le> cap then
            (int (unat (rest ! 1)), replicate (unat (rest ! 1)) (rest ! 0))
          else (- 1, []))"

definition fnv1a :: "uint32_t \<Rightarrow> buffer \<Rightarrow> uint32_t" where
  "fnv1a h bs = fold (\<lambda>b h. (h XOR ucast b) * 16777619) bs h"

definition demo :: "(nat, uint32_t) primitives" where
  "demo = \<lparr>
     LZ4HC_CLEVEL_MIN = 3,
     LZ4_compressBound = (\<lambda>n. n + n div 255 + 16),
     LZ4_initStream = (\<lambda>m. 0),
     LZ4_initStreamHC = (\<lambda>m. 0),
     LZ4_setCompressionLevel = (\<lambda>c lvl. c),
     LZ4_attach_dictionary = (\<lambda>c. c),
     LZ4_compress_fast_extState_fastReset = demo_compress,
     LZ4_resetStreamHC_fast = (\<lambda>c lvl. c),
     LZ4_attach_HC_dictionary = (\<lambda>c. c),
     LZ4_compress_HC_extStateHC_fastReset = demo_compress,
     LZ4_decompress_safe = demo_decompress,
     XXH32_hash = (\<lambda>bs seed. fnv1a (2166136261 + seed) bs),
     XXH32_reset = (\<lambda>st seed. 2166136261 + seed),
     XXH32_update = fnv1a,
     XXH32_digest = (\<lambda>st. st) \<rparr>"

definition demo_r0 :: "(nat, uint32_t) lz4_s" where
  "demo_r0 = \<lparr> size_s = 77, content_checksum = True, block_checksum = True, level = 9,
     header = [], header_size = 0xAAAAAAAA, block_size = 0xAAAAAAAA,
     compressed_size = 0xAAAAAAAA, block_header_size = 0xAAAAAAAA, xxh = 0xDEADBEEF,
     ctx = None \<rparr>"

definition demo_h0 :: lz4_header_t where
  "demo_h0 = \<lparr> h_block_size = 0xAAAAAAAA, h_compressed_size = 0xAAAAAAAA, h_size = 77,
     h_block_checksum = True, h_content_checksum = True, h_header = [] \<rparr>"

definition demo_m :: nat where
  "demo_m = 12345"

definition demo_dest :: buffer where
  \<comment> \<open>a destination buffer of 32 bytes\<close>
  "demo_dest = [0, 0, 0, 0, 0, 0, 0, 0, 0, 0, 0, 0, 0, 0, 0, 0,
                0, 0, 0, 0, 0, 0, 0, 0, 0, 0, 0, 0, 0, 0, 0, 0]"

definition demo_session :: "bool \<Rightarrow> bool \<Rightarrow> (nat, uint32_t) lz4_s" where
  \<comment> \<open>a compression session for 64KB blocks at level 1, as \<open>lz4_init\<close> returns it\<close>
  "demo_session bc cc = (case lz4_init demo 1 s64kb bc cc demo_r0 demo_m of Some l \<Rightarrow> l | None \<Rightarrow> demo_r0)"

definition demo_decompress_session :: "buffer \<Rightarrow> (nat, uint32_t) lz4_s" where
  \<comment> \<open>a decompression session for a descriptor, as \<open>lz4_init_decompress\<close> returns it\<close>
  "demo_decompress_session hdr =
     (case lz4_init_decompress demo hdr 7 demo_h0 demo_r0 of Some (Some d) \<Rightarrow> d | _ \<Rightarrow> demo_r0)"


section \<open>Facts about words\<close>

lemma hb_const: "(0x80000000 :: uint32_t) = 2 ^ 31" "(0x7fffffff :: uint32_t) = mask 31"
  by (simp_all add: mask_eq_exp_minus_1)

lemma hb4: "(v :: uint32_t) < 0x80000000 \<Longrightarrow> v AND 0x7fffffff = v"
  unfolding hb_const by (rule less_mask_eq)

lemma nb: "(v::uint32_t) < 0x80000000 \<Longrightarrow> \<not> bit v 31"
proof
  assume a: "v < 0x80000000" and b: "bit v 31"
  from a have "v AND mask 31 = v" unfolding hb_const by (rule less_mask_eq)
  then have "bit (v AND mask 31) 31" using b by simp
  then show False by (simp add: bit_simps)
qed

lemma bit_high: "bit (0x80000000 :: uint32_t) n \<longleftrightarrow> n = 31"
proof -
  have "(0x80000000 :: uint32_t) = push_bit 31 1" by simp
  then show ?thesis by (auto simp only: bit_push_bit_iff bit_1_iff) simp_all
qed

lemma hb3: "(v :: uint32_t) < 0x80000000 \<Longrightarrow> v AND 0x80000000 = 0"
proof (rule bit_word_eqI)
  fix n assume a: "v < 0x80000000" and "n < LENGTH(32)"
  from nb [OF a] bit_high [of n] show "bit (v AND 0x80000000) n \<longleftrightarrow> bit (0 :: uint32_t) n"
    by (auto simp: bit_and_iff)
qed

lemma hb1: "(v :: uint32_t) < 0x80000000 \<Longrightarrow> (v OR 0x80000000) AND 0x7fffffff = v"
proof -
  assume a: "v < 0x80000000"
  have "(v OR 0x80000000) AND 0x7fffffff = (v AND 0x7fffffff) OR (0x80000000 AND 0x7fffffff)"
    by (simp add: bit.conj_disj_distrib2)
  also have "\<dots> = v" using hb4 [OF a] by simp
  finally show ?thesis .
qed

lemma hb2: "((v :: uint32_t) OR 0x80000000) AND 0x80000000 \<noteq> 0"
  by simp

lemma sint_small: "(w :: uint32_t) < 0x80000000 \<Longrightarrow> sint w = int (unat w)"
proof -
  assume "w < 0x80000000"
  then have "uint w < 2 ^ 31" by (simp add: word_less_def)
  then have "signed_take_bit 31 (uint w) = uint w"
    by (intro signed_take_bit_int_eq_self) (simp_all add: order_trans [of _ 0])
  then show ?thesis by (simp add: sint_uint)
qed

lemma sint_big: "\<not> (w :: uint32_t) < 0x80000000 \<Longrightarrow> sint w < 0"
proof -
  assume "\<not> w < 0x80000000"
  then have lo: "2 ^ 31 \<le> uint w" by (simp add: word_less_def not_less)
  have hi: "uint w < 2 ^ 32" using uint_bounded [of w] by simp
  from lo hi have "uint w div 2 ^ 31 = 1" by simp
  then have b: "bit (uint w) 31" by (simp add: bit_iff_odd)
  have "take_bit 32 (uint w) = uint w" using hi by (simp add: take_bit_int_eq_self)
  with b have "sint w = uint w - 2 ^ 32"
    by (simp add: sint_uint signed_take_bit_eq_take_bit_minus)
  with hi show ?thesis by simp
qed

lemma sint_nonneg: "0 \<le> sint (w :: uint32_t) \<Longrightarrow> w < 0x80000000"
  using sint_big [of w] by auto

section \<open>Facts about memory\<close>

lemma le32_word_bytes: "le32_word (le32_bytes v) = v"
  unfolding le32_word_def le32_bytes_def
  apply simp
  apply (rule bit_word_eqI)
  apply (simp add: bit_simps)
  apply (auto simp: not_less)
  subgoal for n by (cases "n < 24"; simp add: not_less)
  done

lemma length_le32_bytes: "length (le32_bytes v) = 4"
  by (simp add: le32_bytes_def)

lemma le32_bytes_0: "le32_bytes 0 = [0, 0, 0, 0]"
  by (simp add: le32_bytes_def)

lemma load_Some: "off + n \<le> length mem \<Longrightarrow> load mem off n = Some (take n (drop off mem))"
  by (simp add: load_def)

lemma store_Some:
  "off + length bs \<le> length mem \<Longrightarrow>
   store mem off bs = Some (take off mem @ bs @ drop (off + length bs) mem)"
  by (simp add: store_def)

lemma load_length: "load mem off n = Some bs \<Longrightarrow> length bs = n \<and> off + n \<le> length mem \<and> bs = take n (drop off mem)"
  by (auto simp: load_def split: if_splits)

lemma store_length: "store mem off bs = Some mem' \<Longrightarrow> length mem' = length mem \<and> off + length bs \<le> length mem \<and> mem' = take off mem @ bs @ drop (off + length bs) mem"
  by (auto simp: store_def split: if_splits)

section \<open>Facts about descriptors and session creation\<close>

lemmas descriptor_defs =
  hdr_64kb_def c_64kb_def b_64kb_def cb_64kb_def
  hdr_256kb_def c_256kb_def b_256kb_def cb_256kb_def
  hdr_1mb_def c_1mb_def b_1mb_def cb_1mb_def
  hdr_4mb_def c_4mb_def b_4mb_def cb_4mb_def

lemmas size_class_defs = s64kb_def s256kb_def s1mb_def s4mb_def

lemma length7E:
  assumes "length (xs :: 'a list) = 7"
  obtains a b c d e f g where "xs = [a, b, c, d, e, f, g]"
proof -
  from assms obtain a b c d e f g where "xs = [a, b, c, d, e, f, g]"
    by (auto simp: length_Suc_conv eval_nat_numeral)
  then show ?thesis by (rule that)
qed

lemma check_header_cases:
  "lz4_check_header P (Some r) [a, b, c, d, e, f, g] 7 = Some None \<longleftrightarrow>
     \<not> ([a, b, c, d] = magic_prefix \<and> [e, f, g] \<in> set descriptor_suffixes)"
  apply (simp add: lz4_check_header_def descriptor_defs descriptors_def descriptor_suffixes_def magic_prefix_def Let_def)
  apply blast
  done

lemma check_header_defined:
  "lz4_check_header P (Some r) [a, b, c, d, e, f, g] 7 \<noteq> None"
  by (simp add: lz4_check_header_def descriptor_defs Let_def)

lemma check_header_wrong_size:
  "header_size' \<noteq> 7 \<Longrightarrow> lz4_check_header P r header' header_size' = Some None"
  by (simp add: lz4_check_header_def)

lemma lz4_init_size_class:
  "lz4_init P lv sz bc cc r0 m = Some l \<Longrightarrow> sz = 0 \<or> sz = 1 \<or> sz = 2 \<or> sz = 3"
  by (simp add: lz4_init_def size_class_defs split: if_splits)

lemma lz4_init_fields:
  assumes "lz4_init P lv sz bc cc r0 m = Some l"
  shows "block_checksum l = bc \<and> content_checksum l = cc \<and> header_size l = 7 \<and>
   block_header_size l = 4 + (if bc then 4 else 0) \<and> xxh l = xxh r0 \<and> ctx l \<noteq> None \<and> level l = lv \<and>
   header l = descriptors ! (4 * nat sz + (if bc then 2 else 0) + (if cc then 1 else 0)) \<and>
   block_size l = (if sz = 0 then 65536 else if sz = 1 then 262144 else if sz = 2 then 1048576 else 4194304) \<and>
   compressed_size l = word_of_int (LZ4_compressBound P (sint (block_size l)))"
proof -
  from assms have "sz = 0 \<or> sz = 1 \<or> sz = 2 \<or> sz = 3" by (rule lz4_init_size_class)
  then show ?thesis
  proof (elim disjE)
    assume "sz = 0"
    with assms show ?thesis
      by (cases "lv < LZ4HC_CLEVEL_MIN P"; cases bc; cases cc)
         (auto simp: lz4_init_def size_class_defs descriptors_def)
  next
    assume "sz = 1"
    with assms show ?thesis
      by (cases "lv < LZ4HC_CLEVEL_MIN P"; cases bc; cases cc)
         (auto simp: lz4_init_def size_class_defs descriptors_def)
  next
    assume "sz = 2"
    with assms show ?thesis
      by (cases "lv < LZ4HC_CLEVEL_MIN P"; cases bc; cases cc)
         (auto simp: lz4_init_def size_class_defs descriptors_def)
  next
    assume "sz = 3"
    with assms show ?thesis
      by (cases "lv < LZ4HC_CLEVEL_MIN P"; cases bc; cases cc)
         (auto simp: lz4_init_def size_class_defs descriptors_def)
  qed
qed

lemma lz4_check_header_table:
  assumes "sz = 0 \<or> sz = 1 \<or> sz = 2 \<or> sz = 3"
  shows "lz4_check_header P (Some h0)
           (descriptors ! (4 * nat sz + (if bc then 2 else 0) + (if cc then 1 else 0))) 7 =
         Some (Some (h0\<lparr>
           h_compressed_size := word_of_int (LZ4_compressBound P (sint
             (if sz = 0 then 65536 else if sz = 1 then 262144
              else if sz = 2 then 1048576 else 4194304 :: uint32_t))),
           h_block_size := (if sz = 0 then 65536 else if sz = 1 then 262144
              else if sz = 2 then 1048576 else 4194304),
           h_block_checksum := bc, h_content_checksum := cc,
           h_header := descriptors ! (4 * nat sz + (if bc then 2 else 0) + (if cc then 1 else 0))\<rparr>))"
  using assms
proof (elim disjE)
  assume "sz = 0"
  then show ?thesis
    by (cases bc; cases cc)
      (simp_all add: lz4_check_header_def descriptors_def descriptor_defs)
next
  assume "sz = 1"
  then show ?thesis
    by (cases bc; cases cc)
      (simp_all add: lz4_check_header_def descriptors_def descriptor_defs)
next
  assume "sz = 2"
  then show ?thesis
    by (cases bc; cases cc)
      (simp_all add: lz4_check_header_def descriptors_def descriptor_defs)
next
  assume "sz = 3"
  then show ?thesis
    by (cases bc; cases cc)
      (simp_all add: lz4_check_header_def descriptors_def descriptor_defs)
qed

lemma lz4_init_decompress_fields:
  assumes "lz4_init_decompress P hdr hs h0 r1 = Some (Some d)"
  shows "\<exists>h. lz4_check_header P (Some h0) hdr hs = Some (Some h) \<and>
       block_checksum d = h_block_checksum h \<and> content_checksum d = h_content_checksum h \<and>
       block_size d = h_block_size h \<and> compressed_size d = h_compressed_size h \<and>
       header d = h_header h \<and> header_size d = 7 \<and> ctx d = None \<and> level d = 1 \<and>
       block_header_size d = (if h_block_checksum h then 4 else 0) \<and>
       xxh d = (if h_content_checksum h then XXH32_reset P (xxh r1) 0 else xxh r1)"
proof (cases "lz4_check_header P (Some h0) hdr hs")
  case None
  with assms show ?thesis by (simp add: lz4_init_decompress_def)
next
  case (Some checked)
  show ?thesis
  proof (cases checked)
    case None
    with Some assms show ?thesis by (simp add: lz4_init_decompress_def)
  next
    case (Some h)
    with \<open>lz4_check_header P (Some h0) hdr hs = Some checked\<close> assms
    have "d = (let r = r1\<lparr>ctx := None, level := 1, block_size := h_block_size h,
                    compressed_size := h_compressed_size h, size_s := h_size h,
                    content_checksum := h_content_checksum h,
                    block_checksum := h_block_checksum h,
                    block_header_size := (if h_block_checksum h then 4 else 0),
                    header := h_header h, header_size := 7\<rparr>
               in if h_content_checksum h then r\<lparr>xxh := XXH32_reset P (xxh r) 0\<rparr> else r)"
      by (simp add: lz4_init_decompress_def Let_def)
    with Some \<open>lz4_check_header P (Some h0) hdr hs = Some checked\<close> show ?thesis
      by (simp add: Let_def)
  qed
qed

lemma lz4_init_decompress_of_init:
  assumes i: "lz4_init P lv sz bc cc r0 m = Some l"
    and d: "lz4_init_decompress P (header l) (header_size l) h0 r1 = Some (Some d)"
  shows "block_checksum d = bc \<and> content_checksum d = cc \<and> block_size d = block_size l \<and>
         compressed_size d = compressed_size l \<and> header d = header l \<and>
         block_header_size d = (if bc then 4 else 0) \<and> ctx d = None \<and>
         xxh d = (if cc then XXH32_reset P (xxh r1) 0 else xxh r1)"
proof -
  note f = lz4_init_fields [OF i]
  from i have sz: "sz = 0 \<or> sz = 1 \<or> sz = 2 \<or> sz = 3" by (rule lz4_init_size_class)
  from f have hs: "header_size l = 7" by simp
  from lz4_init_decompress_fields [OF d] obtain h where
    h: "lz4_check_header P (Some h0) (header l) (header_size l) = Some (Some h)" and
    df: "block_checksum d = h_block_checksum h" "content_checksum d = h_content_checksum h"
        "block_size d = h_block_size h" "compressed_size d = h_compressed_size h"
        "header d = h_header h" "ctx d = None"
        "block_header_size d = (if h_block_checksum h then 4 else 0)"
        "xxh d = (if h_content_checksum h then XXH32_reset P (xxh r1) 0 else xxh r1)"
    by blast
  from f have hl: "header l = descriptors ! (4 * nat sz + (if bc then 2 else 0) + (if cc then 1 else 0))"
    by simp
  from h lz4_check_header_table [OF sz, of P h0 bc cc]
  have hf: "h_block_checksum h = bc" "h_content_checksum h = cc" "h_header h = header l"
    "h_block_size h = block_size l" "h_compressed_size h = compressed_size l"
    unfolding hs hl [symmetric] using f by auto
  with df show ?thesis by simp
qed

lemma lz4_init_total:
  "sz = s64kb \<or> sz = s256kb \<or> sz = s1mb \<or> sz = s4mb \<Longrightarrow>
   lz4_init P lv sz bc cc r0 m \<noteq> None"
  by (auto simp: lz4_init_def size_class_defs Let_def)

lemma lz4_init_decompress_total:
  assumes "lz4_init P lv sz bc cc r0 m = Some l"
  shows "\<exists>d. lz4_init_decompress P (header l) (header_size l) h0 r1 = Some (Some d)"
proof -
  from assms have sz: "sz = 0 \<or> sz = 1 \<or> sz = 2 \<or> sz = 3" by (rule lz4_init_size_class)
  from lz4_init_fields [OF assms] have
    hs: "header_size l = 7" and
    hl: "header l = descriptors ! (4 * nat sz + (if bc then 2 else 0) + (if cc then 1 else 0))"
    by simp_all
  from lz4_check_header_table [OF sz, of P h0 bc cc] obtain h where
    "lz4_check_header P (Some h0) (header l) (header_size l) = Some (Some h)"
    unfolding hs hl by blast
  then show ?thesis by (simp add: lz4_init_decompress_def Let_def)
qed

section \<open>Facts about the encoder\<close>

lemma lz4_compress_Some:
  assumes "lz4_compress P l src src_len dest off cap = Some (c, dest1, l2)"
  shows "length dest1 = length dest \<and> take off dest1 = take off dest \<and>
         unat src_len \<le> length src \<and> (\<exists>c'. l2 = l\<lparr>ctx := Some c'\<rparr>)"
  using assms
  by (auto simp: lz4_compress_def Let_def split: Option.bind_splits prod.splits if_splits
      dest!: load_length store_length)

lemma lz4_compress_xxh:
  "lz4_compress P (l\<lparr>xxh := x\<rparr>) src src_len dest off cap =
     map_option (\<lambda>(c, d, l'). (c, d, l'\<lparr>xxh := x\<rparr>)) (lz4_compress P l src src_len dest off cap)"
  by (auto simp: lz4_compress_def Let_def split: Option.bind_splits prod.splits if_splits)

lemma lz4_compress_block_raw:
  assumes c: "lz4_compress P l src src_len dest 4 (dest_len - block_header_size l) =
                Some (csize, dest1, l2)"
    and ge: "src_len \<le> csize"
    and fit: "4 + unat src_len + (if block_checksum l then 4 else 0) \<le> length dest"
  shows "lz4_compress_block P l src src_len dest dest_len =
           Some (src_len + block_header_size l,
                 le32_bytes (src_len OR 0x80000000) @ take (unat src_len) src @
                 (if block_checksum l
                  then le32_bytes (XXH32_hash P (take (unat src_len) src) 0) @
                       drop (8 + unat src_len) dest1
                  else drop (4 + unat src_len) dest1),
                 l2\<lparr>xxh := (if content_checksum l
                             then XXH32_update P (xxh l) (take (unat src_len) src)
                             else xxh l)\<rparr>)"
proof -
  from lz4_compress_Some [OF c] obtain c' where
    len1: "length dest1 = length dest" and srclen: "unat src_len \<le> length src"
    and l2: "l2 = l\<lparr>ctx := Some c'\<rparr>"
    by blast
  define l1 where "l1 = l\<lparr>xxh := (if content_checksum l
                             then XXH32_update P (xxh l) (take (unat src_len) src) else xxh l)\<rparr>"
  have s1: "(if content_checksum l then do {
          s \<leftarrow> load src 0 (unat src_len);
          Some (l\<lparr>xxh := XXH32_update P (xxh l) s\<rparr>)
        } else Some l) = Some l1"
    using srclen by (simp add: l1_def load_def)
  have s2: "lz4_compress P l1 src src_len dest 4 (dest_len - block_header_size l1) =
              Some (csize, dest1, l2\<lparr>xxh := xxh l1\<rparr>)"
    unfolding l1_def by (simp add: lz4_compress_xxh c)
  define d where "d = le32_bytes (src_len OR 0x80000000) @ drop 4 dest1"
  have s3: "write_little_endian_32 dest1 0 (src_len OR 0x80000000) = Some d"
    using fit len1 by (simp add: write_little_endian_32_def store_def d_def length_le32_bytes)
  have lend: "length d = length dest" using fit len1 by (simp add: d_def length_le32_bytes)
  define d' where "d' = le32_bytes (src_len OR 0x80000000) @ take (unat src_len) src @ drop (4 + unat src_len) dest1"
  have s4: "memcpy d 4 src 0 (unat src_len) = Some d'"
    using fit len1 srclen lend
    by (simp add: memcpy_def load_def store_def d_def d'_def length_le32_bytes ac_simps)
  have lend': "length d' = length dest"
    using fit len1 srclen by (simp add: d'_def length_le32_bytes)
  have s5: "load d' 4 (unat src_len) = Some (take (unat src_len) src)"
    using fit len1 srclen lend'
    by (simp add: load_def d'_def length_le32_bytes)
  have s6: "block_checksum l \<Longrightarrow> write_little_endian_32 d' (4 + unat src_len) v =
      Some (le32_bytes (src_len OR 0x80000000) @ take (unat src_len) src @ le32_bytes v @ drop (8 + unat src_len) dest1)" for v
    using fit len1 srclen lend'
    by (simp add: write_little_endian_32_def store_def d'_def length_le32_bytes ac_simps)
  have bc: "block_checksum l2 = block_checksum l"
    "block_header_size l2 = block_header_size l"
    by (simp_all add: l2)
  have xl1: "xxh l1 = (if content_checksum l
                             then XXH32_update P (xxh l) (take (unat src_len) src) else xxh l)"
    by (simp add: l1_def)
  show ?thesis
    unfolding lz4_compress_block_def s1
    using ge
    apply (simp add: s2 s3 s4 s5 s6 bc xl1 Let_def)
    apply (simp add: d'_def)
    done
qed

lemma lz4_compress_block_compressed:
  assumes c: "lz4_compress P l src src_len dest 4 (dest_len - block_header_size l) =
                Some (csize, dest1, l2)"
    and lt: "csize < src_len"
    and fit: "4 + unat csize + (if block_checksum l then 4 else 0) \<le> length dest"
  shows "lz4_compress_block P l src src_len dest dest_len =
           Some (csize + block_header_size l,
                 le32_bytes csize @ take (unat csize) (drop 4 dest1) @
                 (if block_checksum l
                  then le32_bytes (XXH32_hash P (take (unat csize) (drop 4 dest1)) 0) @
                       drop (8 + unat csize) dest1
                  else drop (4 + unat csize) dest1),
                 l2\<lparr>xxh := (if content_checksum l
                             then XXH32_update P (xxh l) (take (unat src_len) src)
                             else xxh l)\<rparr>)"
proof -
  from lz4_compress_Some [OF c] obtain c' where
    len1: "length dest1 = length dest" and srclen: "unat src_len \<le> length src"
    and l2: "l2 = l\<lparr>ctx := Some c'\<rparr>"
    by blast
  define l1 where "l1 = l\<lparr>xxh := (if content_checksum l
                             then XXH32_update P (xxh l) (take (unat src_len) src) else xxh l)\<rparr>"
  have s1: "(if content_checksum l then do {
          s \<leftarrow> load src 0 (unat src_len);
          Some (l\<lparr>xxh := XXH32_update P (xxh l) s\<rparr>)
        } else Some l) = Some l1"
    using srclen by (simp add: l1_def load_def)
  have s2: "lz4_compress P l1 src src_len dest 4 (dest_len - block_header_size l1) =
              Some (csize, dest1, l2\<lparr>xxh := xxh l1\<rparr>)"
    unfolding l1_def by (simp add: lz4_compress_xxh c)
  define d where "d = le32_bytes csize @ drop 4 dest1"
  have s3: "write_little_endian_32 dest1 0 csize = Some d"
    using fit len1 by (simp add: write_little_endian_32_def store_def d_def length_le32_bytes)
  have lend: "length d = length dest" using fit len1 by (simp add: d_def length_le32_bytes)
  have s5: "load d 4 (unat csize) = Some (take (unat csize) (drop 4 dest1))"
    using fit len1 lend
    by (simp add: load_def d_def length_le32_bytes)
  have split: "drop 4 dest1 = take (unat csize) (drop 4 dest1) @ drop (4 + unat csize) dest1"
    by (metis append_take_drop_id drop_drop add.commute)
  have s6: "block_checksum l \<Longrightarrow> write_little_endian_32 d (4 + unat csize) v =
      Some (le32_bytes csize @ take (unat csize) (drop 4 dest1) @ le32_bytes v @
            drop (8 + unat csize) dest1)" for v
    using fit len1 lend
    by (simp add: write_little_endian_32_def store_def d_def length_le32_bytes ac_simps)
  have bc: "block_checksum l2 = block_checksum l"
    "block_header_size l2 = block_header_size l"
    by (simp_all add: l2)
  have xl1: "xxh l1 = (if content_checksum l
                             then XXH32_update P (xxh l) (take (unat src_len) src) else xxh l)"
    by (simp add: l1_def)
  have nge: "\<not> src_len \<le> csize" using lt by simp
  show ?thesis
    unfolding lz4_compress_block_def s1
    apply (simp add: s2 s3 s5 s6 bc xl1 nge Let_def)
    apply (simp add: d_def)
    apply (metis append_take_drop_id drop_drop add.commute)
    done
qed


lemma lz4_compress_result:
  assumes ok: "block_codec_ok P"
    and ctx: "ctx l \<noteq> None"
    and src: "length src = unat src_len" "src_len \<le> 4194304"
    and four: "4 \<le> length dest"
    and cap: "sint cap = int (length dest) - 4 - k" "0 \<le> k"
    and bound: "LZ4_compressBound P (int (length src)) \<le> sint cap"
  shows "\<exists>r outb c'.
           lz4_compress P l src src_len dest 4 cap =
             Some (word_of_int r, take 4 dest @ outb @ drop (4 + length outb) dest,
                   l\<lparr>ctx := Some c'\<rparr>) \<and>
           0 < r \<and> int (length outb) = r \<and> r \<le> sint cap \<and>
           (\<forall>cap'. int (length src) \<le> cap' \<longrightarrow>
                   LZ4_decompress_safe P outb cap' = (int (length src), src))"
proof -
  from ctx obtain c where c: "ctx l = Some c" by auto
  define call where "call =
    (if level l < LZ4HC_CLEVEL_MIN P
     then LZ4_compress_fast_extState_fastReset P (LZ4_attach_dictionary P c) src (sint cap)
            (if level l < 0 then - level l + 1 else 1)
     else LZ4_compress_HC_extStateHC_fastReset P
            (LZ4_attach_HC_dictionary P (LZ4_resetStreamHC_fast P c (level l))) src (sint cap)
            (level l))"
  obtain r outb c' where call: "call = (r, outb, c')" by (cases call)
  then have "\<exists>c0 a. LZ4_compress_fast_extState_fastReset P c0 src (sint cap) a = (r, outb, c') \<or>
                   LZ4_compress_HC_extStateHC_fastReset P c0 src (sint cap) a = (r, outb, c')"
    unfolding call_def by (cases "level l < LZ4HC_CLEVEL_MIN P") auto
  then obtain c0 a where
    prim: "LZ4_compress_fast_extState_fastReset P c0 src (sint cap) a = (r, outb, c') \<or>
           LZ4_compress_HC_extStateHC_fastReset P c0 src (sint cap) a = (r, outb, c')"
    by blast
  from src(2) have "uint src_len \<le> 4194304" by (simp add: word_le_def)
  with src(1) have small: "int (length src) \<le> 4194304" by simp
  from ok prim have
    w: "int (length outb) \<le> max 0 (sint cap)" and
    inv: "0 < r \<longrightarrow> int (length outb) = r \<and>
           (\<forall>cap'. int (length src) \<le> cap' \<longrightarrow>
                   LZ4_decompress_safe P outb cap' = (int (length src), src))" and
    fits: "int (length src) \<le> 4194304 \<and> LZ4_compressBound P (int (length src)) \<le> sint cap
             \<longrightarrow> 0 < r"
    unfolding block_codec_ok_def by blast+
  from fits small bound have pos: "0 < r" by simp
  from w cap four have st: "4 + length outb \<le> length dest" by simp
  have ld: "load src 0 (unat src_len) = Some src" using src(1) by (simp add: load_def)
  have "lz4_compress P l src src_len dest 4 cap =
             Some (word_of_int r, take 4 dest @ outb @ drop (4 + length outb) dest,
                   l\<lparr>ctx := Some c'\<rparr>)"
  proof -
    have "lz4_compress P l src src_len dest 4 cap =
            (case call of (r, out, c') \<Rightarrow>
               do { dest' \<leftarrow> store dest 4 out;
                    Some (word_of_int r, dest', l\<lparr>ctx := Some c'\<rparr>) })"
      unfolding lz4_compress_def call_def by (simp add: c ld Let_def)
    then show ?thesis using st by (simp add: call store_def)
  qed
  moreover from inv pos w have "int (length outb) = r" "r \<le> sint cap"
    "\<forall>cap'. int (length src) \<le> cap' \<longrightarrow>
                   LZ4_decompress_safe P outb cap' = (int (length src), src)"
    by simp_all
  ultimately show ?thesis using pos by blast
qed

section \<open>Facts about the decoder\<close>

lemma lz4_decompress_payload_raw:
  assumes "unat src_len \<le> length src" "unat src_len \<le> length dest"
  shows "lz4_decompress_payload P l src src_len dest dest_len False =
           Some (sint src_len, take (unat src_len) src @ drop (unat src_len) dest,
                 if 0 \<le> sint src_len \<and> content_checksum l
                 then l\<lparr>xxh := XXH32_update P (xxh l) (take (unat src_len) src)\<rparr> else l)"
proof -
  have m: "memcpy dest 0 src 0 (unat src_len) =
             Some (take (unat src_len) src @ drop (unat src_len) dest)"
    using assms by (simp add: memcpy_def load_def store_def)
  have n: "nat (sint src_len) = unat src_len" if "0 \<le> sint src_len"
    using sint_small [OF sint_nonneg [OF that]] by simp
  have ld: "load (take (unat src_len) src @ drop (unat src_len) dest) 0 (unat src_len) =
              Some (take (unat src_len) src)"
    using assms by (simp add: load_def)
  show ?thesis
    unfolding lz4_decompress_payload_def
    by (simp add: m n ld not_less)
qed

lemma lz4_decompress_payload_compressed:
  assumes "unat src_len \<le> length src"
    and "LZ4_decompress_safe P (take (unat src_len) src) (sint dest_len) = (r, out)"
    and "length out \<le> length dest"
    and "0 \<le> r \<longrightarrow> nat r \<le> length dest"
  shows "lz4_decompress_payload P l src src_len dest dest_len True =
           Some (r, out @ drop (length out) dest,
                 if 0 \<le> r \<and> content_checksum l
                 then l\<lparr>xxh := XXH32_update P (xxh l)
                                 (take (nat r) (out @ drop (length out) dest))\<rparr>
                 else l)"
  unfolding lz4_decompress_payload_def
  using assms by (simp add: load_def store_def not_less)

lemma lz4_decompress_checked:
  assumes "block_checksum l" "4 \<le> unat src_len" "unat src_len \<le> length src"
  shows "lz4_decompress P l src src_len dest dest_len compressed =
           (if XXH32_hash P (take (unat src_len - 4) src) 0 \<noteq>
               le32_word (take 4 (drop (unat src_len - 4) src))
            then Some (- 500, dest, l)
            else lz4_decompress_payload P l src (src_len - 4) dest dest_len compressed)"
proof -
  from assms have "4 \<le> src_len" by (simp add: word_le_nat_alt)
  then have u: "unat (src_len - 4) = unat src_len - 4" by (simp add: unat_sub)
  have r: "read_little_endian_32 src (unat src_len - 4) =
             Some (le32_word (take 4 (drop (unat src_len - 4) src)))"
    using assms by (simp add: read_little_endian_32_def load_def)
  have p: "load src 0 (unat (src_len - 4)) = Some (take (unat src_len - 4) src)"
    using assms by (simp add: u load_def)
  have n: "\<not> unat src_len < 4" using assms by simp
  show ?thesis
    unfolding lz4_decompress_def
    by (simp add: r p n assms(1) Let_def)
qed

lemma lz4_decompress_unchecked:
  "\<not> block_checksum l \<Longrightarrow>
   lz4_decompress P l src src_len dest dest_len compressed =
     lz4_decompress_payload P l src src_len dest dest_len compressed"
  by (simp add: lz4_decompress_def)




lemma read_block_fields:
  assumes "block_header_size d = (if block_checksum d then 4 else 0)"
    and "v < 0x80000000"
    and "length payload = unat v"
    and "length tail = (if block_checksum d then 4 else 0)"
    and "field = v \<or> field = v OR 0x80000000"
  shows "read_block P d (le32_bytes field @ payload @ tail) out out_len =
           lz4_decompress P d (payload @ tail)
             (v + (if block_checksum d then 4 else 0)) out out_len (field = v)"
proof -
  have rd: "read_little_endian_32 (le32_bytes field @ payload @ tail) 0 = Some field"
    by (simp add: read_little_endian_32_def load_def length_le32_bytes le32_word_bytes)
  from assms(2,5) have low: "field AND 0x7fffffff = v"
    using hb1 [of v] hb4 [of v] by auto
  from assms(2,5) have high: "(field AND 0x80000000 = 0) = (field = v)"
    using hb2 [of v] hb3 [of v] by auto
  from assms(2) have "unat v < 2147483648" by (simp add: word_less_nat_alt)
  then have u: "unat (v + (if block_checksum d then 4 else 0)) =
      unat v + (if block_checksum d then 4 else 0)"
    by (simp add: unat_word_ariths)
  have ld: "load (le32_bytes field @ payload @ tail) 4
              (unat (v + (if block_checksum d then 4 else 0))) = Some (payload @ tail)"
    unfolding u using assms(3,4) by (simp add: load_def length_le32_bytes)
  show ?thesis
    unfolding read_block_def lz4_block_header_size_def
    by (simp add: rd low high assms(1) ld Let_def)
qed

lemma decode_raw_block:
  assumes bhd: "block_header_size d = (if block_checksum d then 4 else 0)"
    and small: "src_len < 0x80000000"
    and src: "length src = unat src_len"
    and out: "unat src_len \<le> length out"
  shows "read_block P d
           (le32_bytes (src_len OR 0x80000000) @ src @
            (if block_checksum d then le32_bytes (XXH32_hash P src 0) else []))
           out out_len =
         Some (int (length src), src @ drop (length src) out,
               if content_checksum d then d\<lparr>xxh := XXH32_update P (xxh d) src\<rparr> else d)"
proof -
  define tail where "tail = (if block_checksum d then le32_bytes (XXH32_hash P src 0) else [])"
  have lt: "length tail = (if block_checksum d then 4 else 0)"
    by (simp add: tail_def length_le32_bytes)
  have ne: "src_len OR 0x80000000 \<noteq> src_len"
  proof
    assume e: "src_len OR 0x80000000 = src_len"
    have "(src_len OR 0x80000000) AND 0x80000000 \<noteq> 0" by (rule hb2)
    then have "src_len AND 0x80000000 \<noteq> 0" unfolding e .
    with hb3 [OF small] show False by simp
  qed
  have rb: "read_block P d (le32_bytes (src_len OR 0x80000000) @ src @ tail) out out_len =
           lz4_decompress P d (src @ tail)
             (src_len + (if block_checksum d then 4 else 0)) out out_len False"
    using read_block_fields [OF bhd small src lt, of "src_len OR 0x80000000" P out out_len] ne
    by simp
  have si: "sint src_len = int (length src)" using sint_small [OF small] src by simp
  have pr: "lz4_decompress_payload P d (src @ tail) src_len out out_len False =
         Some (int (length src), src @ drop (length src) out,
               if content_checksum d then d\<lparr>xxh := XXH32_update P (xxh d) src\<rparr> else d)"
    using lz4_decompress_payload_raw [of src_len "src @ tail" out P d out_len] src out si
    by simp
  show ?thesis
    unfolding tail_def [symmetric] rb
  proof (cases "block_checksum d")
    case False
    then show "lz4_decompress P d (src @ tail)
             (src_len + (if block_checksum d then 4 else 0)) out out_len False =
         Some (int (length src), src @ drop (length src) out,
               if content_checksum d then d\<lparr>xxh := XXH32_update P (xxh d) src\<rparr> else d)"
      by (simp add: lz4_decompress_unchecked pr)
  next
    case True
    from small have "unat src_len < 2147483648" by (simp add: word_less_nat_alt)
    then have u: "unat (src_len + 4) = unat src_len + 4" by (simp add: unat_word_ariths)
    have t: "tail = le32_bytes (XXH32_hash P src 0)" using True by (simp add: tail_def)
    have "lz4_decompress P d (src @ tail) (src_len + 4) out out_len False =
            lz4_decompress_payload P d (src @ tail) (src_len + 4 - 4) out out_len False"
      using lz4_decompress_checked [OF True, of "src_len + 4" "src @ tail" P out out_len False]
      by (simp add: u src t length_le32_bytes le32_word_bytes)
    with True show "lz4_decompress P d (src @ tail)
             (src_len + (if block_checksum d then 4 else 0)) out out_len False =
         Some (int (length src), src @ drop (length src) out,
               if content_checksum d then d\<lparr>xxh := XXH32_update P (xxh d) src\<rparr> else d)"
      by (simp add: pr)
  qed
qed

lemma decode_compressed_block:
  assumes bhd: "block_header_size d = (if block_checksum d then 4 else 0)"
    and small: "csize < 0x80000000"
    and payload: "length payload = unat csize"
    and dec: "LZ4_decompress_safe P payload (sint out_len) = (int (length src), src)"
    and out: "length src \<le> length out"
  shows "read_block P d
           (le32_bytes csize @ payload @
            (if block_checksum d then le32_bytes (XXH32_hash P payload 0) else []))
           out out_len =
         Some (int (length src), src @ drop (length src) out,
               if content_checksum d then d\<lparr>xxh := XXH32_update P (xxh d) src\<rparr> else d)"
proof -
  define tail where
    "tail = (if block_checksum d then le32_bytes (XXH32_hash P payload 0) else [])"
  have lt: "length tail = (if block_checksum d then 4 else 0)"
    by (simp add: tail_def length_le32_bytes)
  have rb: "read_block P d (le32_bytes csize @ payload @ tail) out out_len =
           lz4_decompress P d (payload @ tail)
             (csize + (if block_checksum d then 4 else 0)) out out_len True"
    using read_block_fields [OF bhd small payload lt, of csize P out out_len]
    by simp
  have pr: "lz4_decompress_payload P d (payload @ tail) csize out out_len True =
         Some (int (length src), src @ drop (length src) out,
               if content_checksum d then d\<lparr>xxh := XXH32_update P (xxh d) src\<rparr> else d)"
    using lz4_decompress_payload_compressed [of csize "payload @ tail" P out_len
        "int (length src)" src out d] payload dec out
    by simp
  show ?thesis
    unfolding tail_def [symmetric] rb
  proof (cases "block_checksum d")
    case False
    then show "lz4_decompress P d (payload @ tail)
             (csize + (if block_checksum d then 4 else 0)) out out_len True =
         Some (int (length src), src @ drop (length src) out,
               if content_checksum d then d\<lparr>xxh := XXH32_update P (xxh d) src\<rparr> else d)"
      by (simp add: lz4_decompress_unchecked pr)
  next
    case True
    from small have "unat csize < 2147483648" by (simp add: word_less_nat_alt)
    then have u: "unat (csize + 4) = unat csize + 4" by (simp add: unat_word_ariths)
    have t: "tail = le32_bytes (XXH32_hash P payload 0)" using True by (simp add: tail_def)
    have "lz4_decompress P d (payload @ tail) (csize + 4) out out_len True =
            lz4_decompress_payload P d (payload @ tail) (csize + 4 - 4) out out_len True"
      using lz4_decompress_checked [OF True, of "csize + 4" "payload @ tail" P out out_len True]
      by (simp add: u payload t length_le32_bytes le32_word_bytes)
    with True show "lz4_decompress P d (payload @ tail)
             (csize + (if block_checksum d then 4 else 0)) out out_len True =
         Some (int (length src), src @ drop (length src) out,
               if content_checksum d then d\<lparr>xxh := XXH32_update P (xxh d) src\<rparr> else d)"
      by (simp add: pr)
  qed
qed

section \<open>Facts about blocks encoded and decoded\<close>

lemma roundtrip_block:
  assumes ok: "block_codec_ok P"
    and ctx: "ctx l \<noteq> None"
    and bhl: "block_header_size l = 4 + (if block_checksum l then 4 else 0)"
    and bcd: "block_checksum d = block_checksum l"
    and bhd: "block_header_size d = (if block_checksum d then 4 else 0)"
    and src: "length src = unat src_len" "src_len \<le> 4194304"
    and dest: "length dest = unat dest_len" "dest_len < 0x80000000"
      "unat src_len + unat (block_header_size l) \<le> unat dest_len"
      "LZ4_compressBound P (int (length src)) \<le> sint (dest_len - block_header_size l)"
    and out: "length out = unat out_len" "src_len \<le> out_len" "out_len < 0x80000000"
  shows "\<exists>n dest' c' blk.
           lz4_compress_block P l src src_len dest dest_len =
             Some (n, dest',
                   l\<lparr>ctx := Some c',
                      xxh := (if content_checksum l then XXH32_update P (xxh l) src
                              else xxh l)\<rparr>) \<and>
           length dest' = length dest \<and>
           load dest' 0 (unat n) = Some blk \<and>
           read_block P d blk out out_len =
             Some (int (length src), src @ drop (length src) out,
                   if content_checksum d then d\<lparr>xxh := XXH32_update P (xxh d) src\<rparr> else d)"
proof -
  define k :: nat where "k = (if block_checksum l then 4 else 0)"
  define bhs where "bhs = block_header_size l"
  have ub: "unat bhs = 4 + k" by (simp add: bhs_def bhl k_def)
  from dest(3) have le: "bhs \<le> dest_len" by (simp add: bhs_def word_le_nat_alt)
  then have ucap: "unat (dest_len - bhs) = unat dest_len - (4 + k)"
    by (simp add: unat_sub ub)
  from dest(2) have "unat dest_len < 2147483648" by (simp add: word_less_nat_alt)
  with ucap have "unat (dest_len - bhs) < 2147483648" by simp
  then have capw: "dest_len - bhs < 0x80000000" by (simp add: word_less_nat_alt)
  from dest(3) ub have fitraw: "4 + unat src_len + k \<le> length dest"
    by (simp add: dest(1) bhs_def)
  then have four: "4 \<le> length dest" by simp
  have cap: "sint (dest_len - bhs) = int (length dest) - 4 - int k"
    using sint_small [OF capw] ucap fitraw dest(1) by simp
  from src(2) have ssmall: "src_len < 0x80000000"
    by (simp add: word_le_nat_alt word_less_nat_alt)
  have osrc: "length src \<le> length out"
    using out(1,2) src(1) by (simp add: word_le_nat_alt)
  have osint: "int (length src) \<le> sint out_len"
    using sint_small [OF out(3)] out(2) src(1) by (simp add: word_le_def)
  have kpos: "0 \<le> int k" by simp
  from lz4_compress_result [OF ok ctx src four cap kpos dest(4) [folded bhs_def]]
  obtain r outb c' where
    c: "lz4_compress P l src src_len dest 4 (dest_len - bhs) =
             Some (word_of_int r, take 4 dest @ outb @ drop (4 + length outb) dest,
                   l\<lparr>ctx := Some c'\<rparr>)" and
    pos: "0 < r" and lenout: "int (length outb) = r" and rle: "r \<le> sint (dest_len - bhs)" and
    inv: "\<forall>cap'. int (length src) \<le> cap' \<longrightarrow>
                   LZ4_decompress_safe P outb cap' = (int (length src), src)"
    by blast
  define csize :: uint32_t where "csize = word_of_int r"
  define dest1 where "dest1 = take 4 dest @ outb @ drop (4 + length outb) dest"
  from rle cap lenout have fitc: "4 + length outb + k \<le> length dest" by simp
  with dest(1) \<open>unat dest_len < 2147483648\<close> have lo: "length outb < 2147483648" by simp
  have "csize = word_of_nat (length outb)"
    unfolding csize_def lenout [symmetric] by simp
  then have ucs: "unat csize = length outb"
    using lo by (simp add: unat_of_nat)
  then have csmall: "csize < 0x80000000" using lo by (simp add: word_less_nat_alt)
  have len1: "length dest1 = length dest" using fitc by (simp add: dest1_def)
  have pay: "take (unat csize) (drop 4 dest1) = outb"
    using fitc by (simp add: dest1_def ucs)
  note c' = c [folded csize_def dest1_def, unfolded bhs_def]
  have bk: "(if block_checksum l then 4 else 0) = k" by (simp add: k_def)
  show ?thesis
  proof (cases "src_len \<le> csize")
    case True
    have fit: "4 + unat src_len + (if block_checksum l then 4 else 0) \<le> length dest"
      using fitraw by (simp add: k_def)
    define tail where
      "tail = (if block_checksum d then le32_bytes (XXH32_hash P src 0) else [])"
    define blk where "blk = le32_bytes (src_len OR 0x80000000) @ src @ tail"
    have lt: "length tail = k" by (simp add: tail_def bcd k_def length_le32_bytes)
    have un: "unat (src_len + block_header_size l) = 4 + unat src_len + k"
      using fitraw dest(1) \<open>unat dest_len < 2147483648\<close> ub
      by (simp add: unat_word_ariths bhs_def [symmetric])
    have enc: "lz4_compress_block P l src src_len dest dest_len =
           Some (src_len + block_header_size l,
                 blk @ drop (4 + unat src_len + k) dest1,
                 l\<lparr>ctx := Some c',
                    xxh := (if content_checksum l then XXH32_update P (xxh l) src
                            else xxh l)\<rparr>)"
      unfolding lz4_compress_block_raw [OF c' True fit]
      using src(1) by (simp add: blk_def tail_def bcd k_def)
    have lb: "length blk = 4 + unat src_len + k"
      by (simp add: blk_def lt src(1) length_le32_bytes)
    have ld: "load (blk @ drop (4 + unat src_len + k) dest1) 0
                (unat (src_len + block_header_size l)) = Some blk"
      unfolding un by (simp add: load_def lb)
    have ln: "length (blk @ drop (4 + unat src_len + k) dest1) = length dest"
      using fitraw by (simp add: lb len1)
    have rd: "read_block P d blk out out_len =
             Some (int (length src), src @ drop (length src) out,
                   if content_checksum d then d\<lparr>xxh := XXH32_update P (xxh d) src\<rparr> else d)"
      unfolding blk_def tail_def
      using osrc by (intro decode_raw_block [OF bhd ssmall src(1)]) (simp add: src(1))
    from enc ld ln rd show ?thesis by blast
  next
    case False
    then have lt: "csize < src_len" by simp
    have fit: "4 + unat csize + (if block_checksum l then 4 else 0) \<le> length dest"
      using fitc by (simp add: k_def ucs)
    define tail where
      "tail = (if block_checksum d then le32_bytes (XXH32_hash P outb 0) else [])"
    define blk where "blk = le32_bytes csize @ outb @ tail"
    have ltail: "length tail = k" by (simp add: tail_def bcd k_def length_le32_bytes)
    have un: "unat (csize + block_header_size l) = 4 + unat csize + k"
      using fitc dest(1) \<open>unat dest_len < 2147483648\<close> ub ucs
      by (simp add: unat_word_ariths bhs_def [symmetric])
    have enc: "lz4_compress_block P l src src_len dest dest_len =
           Some (csize + block_header_size l,
                 blk @ drop (4 + unat csize + k) dest1,
                 l\<lparr>ctx := Some c',
                    xxh := (if content_checksum l then XXH32_update P (xxh l) src
                            else xxh l)\<rparr>)"
      unfolding lz4_compress_block_compressed [OF c' lt fit] pay
      using src(1) by (simp add: blk_def tail_def bcd k_def)
    have lb: "length blk = 4 + unat csize + k"
      by (simp add: blk_def ltail ucs length_le32_bytes)
    have ld: "load (blk @ drop (4 + unat csize + k) dest1) 0
                (unat (csize + block_header_size l)) = Some blk"
      unfolding un by (simp add: load_def lb)
    have ln: "length (blk @ drop (4 + unat csize + k) dest1) = length dest"
      using fitc by (simp add: lb len1 ucs)
    from inv osint have dec: "LZ4_decompress_safe P outb (sint out_len) = (int (length src), src)"
      by simp
    have rd: "read_block P d blk out out_len =
             Some (int (length src), src @ drop (length src) out,
                   if content_checksum d then d\<lparr>xxh := XXH32_update P (xxh d) src\<rparr> else d)"
      unfolding blk_def tail_def
      by (intro decode_compressed_block [OF bhd csmall _ dec osrc]) (simp add: ucs)
    from enc ld ln rd show ?thesis by blast
  qed
qed

lemma roundtrip_blocks:
  assumes ok: "block_codec_ok P"
    and ctx: "ctx l \<noteq> None"
    and bhl: "block_header_size l = 4 + (if block_checksum l then 4 else 0)"
    and bcd: "block_checksum d = block_checksum l"
    and bhd: "block_header_size d = (if block_checksum d then 4 else 0)"
    and blocks: "\<forall>b \<in> set bs. length b \<le> 4194304 \<and> length b \<le> unat out_len \<and>
                   length b + unat (block_header_size l) \<le> unat dest_len \<and>
                   LZ4_compressBound P (int (length b)) \<le> sint (dest_len - block_header_size l)"
    and dest: "length dest = unat dest_len" "dest_len < 0x80000000"
    and out: "length out = unat out_len" "out_len < 0x80000000"
  shows "\<exists>encs l' d'. compress_blocks P l bs dest dest_len = Some (encs, l') \<and>
                      decompress_blocks P d encs out out_len = Some (bs, d')"
  using ctx bhl bcd bhd blocks dest(1) out(1)
proof (induction bs arbitrary: l d dest out)
  case Nil
  show ?case by simp
next
  case (Cons b bs)
  define src_len :: uint32_t where "src_len = word_of_nat (length b)"
  from Cons.prems(5) have b: "length b \<le> 4194304" "length b \<le> unat out_len"
    "length b + unat (block_header_size l) \<le> unat dest_len"
    "LZ4_compressBound P (int (length b)) \<le> sint (dest_len - block_header_size l)"
    by simp_all
  from b(1) have u: "unat src_len = length b"
    by (simp add: src_len_def unat_of_nat)
  with b(1) have s1: "src_len \<le> 4194304" by (simp add: word_le_nat_alt)
  from u b(2) have s2: "src_len \<le> out_len" by (simp add: word_le_nat_alt)
  from roundtrip_block [OF ok Cons.prems(1,2,3,4) u [symmetric] s1 Cons.prems(6) dest(2)
      b(3) [folded u] b(4) Cons.prems(7) s2 out(2)]
  obtain n dest' c' blk where
    enc: "lz4_compress_block P l b src_len dest dest_len =
             Some (n, dest',
                   l\<lparr>ctx := Some c',
                      xxh := (if content_checksum l then XXH32_update P (xxh l) b
                              else xxh l)\<rparr>)" and
    len: "length dest' = length dest" and
    ld: "load dest' 0 (unat n) = Some blk" and
    dec: "read_block P d blk out out_len =
             Some (int (length b), b @ drop (length b) out,
                   if content_checksum d then d\<lparr>xxh := XXH32_update P (xxh d) b\<rparr> else d)"
    by blast
  define l1 where "l1 = l\<lparr>ctx := Some c',
                      xxh := (if content_checksum l then XXH32_update P (xxh l) b
                              else xxh l)\<rparr>"
  define d1 where
    "d1 = (if content_checksum d then d\<lparr>xxh := XXH32_update P (xxh d) b\<rparr> else d)"
  have p1: "ctx l1 \<noteq> None" by (simp add: l1_def)
  have p2: "block_header_size l1 = 4 + (if block_checksum l1 then 4 else 0)"
    using Cons.prems(2) by (simp add: l1_def)
  have p3: "block_checksum d1 = block_checksum l1"
    using Cons.prems(3) by (simp add: l1_def d1_def)
  have p4: "block_header_size d1 = (if block_checksum d1 then 4 else 0)"
    using Cons.prems(4) by (simp add: d1_def)
  have p5: "\<forall>b \<in> set bs. length b \<le> 4194304 \<and> length b \<le> unat out_len \<and>
                   length b + unat (block_header_size l1) \<le> unat dest_len \<and>
                   LZ4_compressBound P (int (length b)) \<le> sint (dest_len - block_header_size l1)"
    using Cons.prems(5) by (simp add: l1_def)
  have p6: "length dest' = unat dest_len" using len Cons.prems(6) by simp
  have p7: "length (b @ drop (length b) out) = unat out_len"
    using b(2) Cons.prems(7) by simp
  from Cons.IH [OF p1 p2 p3 p4 p5 p6 p7] obtain encs l' d' where
    r1: "compress_blocks P l1 bs dest' dest_len = Some (encs, l')" and
    r2: "decompress_blocks P d1 encs (b @ drop (length b) out) out_len = Some (bs, d')"
    by blast
  have e: "compress_blocks P l (b # bs) dest dest_len = Some (blk # encs, l')"
    using enc ld r1 by (simp add: src_len_def [symmetric] l1_def [symmetric])
  have pr: "load (b @ drop (length b) out) 0 (nat (int (length b))) = Some b"
    by (simp add: load_def)
  have "decompress_blocks P d (blk # encs) out out_len = Some (b # bs, d')"
    using dec r2 pr by (simp add: d1_def [symmetric])
  with e show ?case by blast
qed

section \<open>The small instance, evaluated\<close>

lemma demo_sel:
  "LZ4HC_CLEVEL_MIN demo = 3"
  "LZ4_compressBound demo = (\<lambda>n. n + n div 255 + 16)"
  "LZ4_attach_dictionary demo = (\<lambda>c. c)"
  "LZ4_compress_fast_extState_fastReset demo = demo_compress"
  "LZ4_resetStreamHC_fast demo = (\<lambda>c lvl. c)"
  "LZ4_attach_HC_dictionary demo = (\<lambda>c. c)"
  "LZ4_compress_HC_extStateHC_fastReset demo = demo_compress"
  "LZ4_decompress_safe demo = demo_decompress"
  "XXH32_hash demo = (\<lambda>bs seed. fnv1a (2166136261 + seed) bs)"
  "XXH32_reset demo = (\<lambda>st seed. 2166136261 + seed)"
  "XXH32_update demo = fnv1a"
  "XXH32_digest demo = (\<lambda>st. st)"
  by (simp_all add: demo_def)

lemma demo_r0_sel:
  "xxh demo_r0 = 0xDEADBEEF" "ctx demo_r0 = None"
  by (simp_all add: demo_r0_def)

lemma demo_session_eq:
  "demo_session bc cc =
     \<lparr> size_s = 0, content_checksum = cc, block_checksum = bc, level = 1,
       header = (if \<not> cc then (if bc then b_64kb else hdr_64kb)
                 else (if bc then cb_64kb else c_64kb)),
       header_size = 7, block_size = 65536, compressed_size = 65809,
       block_header_size = 4 + (if bc then 4 else 0), xxh = 0xDEADBEEF, ctx = Some 0 \<rparr>"
  by (simp add: demo_session_def lz4_init_def demo_def demo_r0_def s64kb_def)

lemma demo_decompress_session_eq:
  "demo_decompress_session hdr_64kb =
     \<lparr> size_s = 77, content_checksum = False, block_checksum = False, level = 1,
       header = hdr_64kb, header_size = 7, block_size = 65536, compressed_size = 65809,
       block_header_size = 0, xxh = 0xDEADBEEF, ctx = None \<rparr>"
  "demo_decompress_session b_64kb =
     \<lparr> size_s = 77, content_checksum = False, block_checksum = True, level = 1,
       header = b_64kb, header_size = 7, block_size = 65536, compressed_size = 65809,
       block_header_size = 4, xxh = 0xDEADBEEF, ctx = None \<rparr>"
  "demo_decompress_session c_64kb =
     \<lparr> size_s = 77, content_checksum = True, block_checksum = False, level = 1,
       header = c_64kb, header_size = 7, block_size = 65536, compressed_size = 65809,
       block_header_size = 0, xxh = 0x811C9DC5, ctx = None \<rparr>"
  "demo_decompress_session cb_64kb =
     \<lparr> size_s = 77, content_checksum = True, block_checksum = True, level = 1,
       header = cb_64kb, header_size = 7, block_size = 65536, compressed_size = 65809,
       block_header_size = 4, xxh = 0x811C9DC5, ctx = None \<rparr>"
  by (simp_all add: demo_decompress_session_def lz4_init_decompress_def lz4_check_header_def
      demo_def demo_r0_def demo_h0_def descriptor_defs)

lemma demo_init:
  "lz4_init demo 1 s64kb bc cc demo_r0 demo_m = Some (demo_session bc cc)"
  by (simp add: demo_session_def lz4_init_def s64kb_def demo_def Let_def)

lemma demo_init_decompress:
  "lz4_init_decompress demo hdr_64kb 7 demo_h0 demo_r0 = Some (Some (demo_decompress_session hdr_64kb))"
  "lz4_init_decompress demo b_64kb 7 demo_h0 demo_r0 = Some (Some (demo_decompress_session b_64kb))"
  "lz4_init_decompress demo c_64kb 7 demo_h0 demo_r0 = Some (Some (demo_decompress_session c_64kb))"
  "lz4_init_decompress demo cb_64kb 7 demo_h0 demo_r0 = Some (Some (demo_decompress_session cb_64kb))"
  by (simp_all add: demo_decompress_session_def lz4_init_decompress_def lz4_check_header_def
      descriptor_defs demo_def Let_def)

lemmas demo_eval =
  lz4_compress_block_def lz4_compress_def lz4_decompress_def lz4_decompress_payload_def
  demo_sel demo_compress_def demo_decompress_def load_def store_def memcpy_def
  write_little_endian_32_def read_little_endian_32_def le32_bytes_def le32_word_def fnv1a_def
  Let_def demo_session_eq demo_decompress_session_eq

lemma replicate_eval: "replicate (numeral k) x = x # replicate (pred_numeral k) x"
  by (simp add: numeral_eq_Suc)

lemma demo_compress_raw:
  "lz4_compress demo (demo_session True True) [5, 6, 5, 5, 5, 5] 6
     [0, 0, 0, 0, 0, 0, 0, 0, 0, 0, 0, 0, 0, 0, 0, 0, 0, 0, 0, 0] 4
     (20 - block_header_size (demo_session True True)) =
   Some (7, [0, 0, 0, 0, 0, 5, 6, 5, 5, 5, 5, 0, 0, 0, 0, 0, 0, 0, 0, 0],
         (demo_session True True)\<lparr>ctx := Some 1\<rparr>)"
  by (simp add: demo_eval)

lemma demo_compress_block_raw:
  "lz4_compress_block demo (demo_session True True) [5, 6, 5, 5, 5, 5] 6
     [0, 0, 0, 0, 0, 0, 0, 0, 0, 0, 0, 0, 0, 0, 0, 0, 0, 0, 0, 0] 20 =
   Some (14, [6, 0, 0, 0x80, 5, 6, 5, 5, 5, 5, 94, 117, 29, 73, 0, 0, 0, 0, 0, 0],
         (demo_session True True)\<lparr>xxh := 894245220, ctx := Some 1\<rparr>)"
  by (simp add: demo_eval)

lemma demo_compress_fail:
  "lz4_compress demo (demo_session False False) [5, 6, 5, 5, 5, 5] 6
     [9, 9, 9, 9, 9, 9, 9, 9, 9, 9] 4
     (10 - block_header_size (demo_session False False)) =
   Some (0, [9, 9, 9, 9, 9, 9, 9, 9, 9, 9], (demo_session False False)\<lparr>ctx := Some 1\<rparr>)"
  by (simp add: demo_eval)

lemma demo_compress_block_fail:
  "lz4_compress_block demo (demo_session False False) [5, 6, 5, 5, 5, 5] 6
     [9, 9, 9, 9, 9, 9, 9, 9, 9, 9] 10 =
   Some (4, [0, 0, 0, 0, 9, 9, 9, 9, 9, 9], (demo_session False False)\<lparr>ctx := Some 1\<rparr>)"
  by (simp add: demo_eval)



lemma demo_decompress_raw:
  "lz4_decompress demo (demo_decompress_session cb_64kb) [5, 6, 5, 5, 5, 5, 94, 117, 29, 73] 10
     [0, 0, 0, 0, 0, 0] 2 False =
   Some (6, [5, 6, 5, 5, 5, 5], (demo_decompress_session cb_64kb)\<lparr>xxh := 1226667358\<rparr>)"
  "lz4_decompress demo (demo_decompress_session hdr_64kb) [5, 6, 5, 5, 5, 5] 6
     [0, 0, 0, 0, 0, 0] 2 False =
   Some (6, [5, 6, 5, 5, 5, 5], demo_decompress_session hdr_64kb)"
  by (simp_all add: demo_eval)




lemma demo_codec_ok: "block_codec_ok demo"
  unfolding block_codec_ok_def demo_sel
proof (intro allI impI)
  fix c s cap a r out c'
  assume "demo_compress c s cap a = (r, out, c') \<or> demo_compress c s cap a = (r, out, c')"
  then have e: "demo_compress c s cap a = (r, out, c')" by blast
  show "int (length out) \<le> max 0 cap \<and>
        (0 < r \<longrightarrow> int (length out) = r \<and>
           (\<forall>cap'. int (length s) \<le> cap' \<longrightarrow> demo_decompress out cap' = (int (length s), s))) \<and>
        (int (length s) \<le> 4194304 \<and> int (length s) + int (length s) div 255 + 16 \<le> cap \<longrightarrow>
           0 < r)"
  proof (cases "s \<noteq> [] \<and> length s < 256 \<and> s = replicate (length s) (hd s)")
    case True
    then have n: "unat (word_of_nat (length s) :: uint8_t) = length s"
      by (simp add: unat_of_nat)
    then have n': "uint (word_of_nat (length s) :: uint8_t) = int (length s)"
      by (metis uint_nat)
    from True have rep: "replicate (length s) (hd s) = s" by simp
    from True e have "(if 3 \<le> cap then (3, [1, hd s, word_of_nat (length s)], Suc c)
                       else (0, [], Suc c)) = (r, out, c')"
      by (auto simp: demo_compress_def Let_def)
    then show ?thesis
      using n n' rep by (auto simp: demo_decompress_def split: if_splits)
  next
    case False
    with e have "(if int (length s) + 1 \<le> cap then (int (length s) + 1, 0 # s, Suc c)
                  else (0, [], Suc c)) = (r, out, c')"
      by (auto simp: demo_compress_def Let_def)
    then show ?thesis
      by (auto simp: demo_decompress_def split: if_splits)
  qed
qed

lemma demo_compress_blocks:
  "compress_blocks demo (demo_session True True) [[5, 5, 5, 5, 5, 5], [5, 6, 5, 5, 5, 5], []]
     demo_dest 32 =
   Some ([[3, 0, 0, 0, 1, 5, 6, 87, 216, 194, 155],
          [6, 0, 0, 0x80, 5, 6, 5, 5, 5, 5, 94, 117, 29, 73],
          [0, 0, 0, 0x80, 197, 157, 28, 129]],
         (demo_session True True)\<lparr>xxh := 3252611734, ctx := Some 3\<rparr>)"
  by (simp add: demo_eval demo_dest_def)

lemma demo_decompress_blocks:
  "decompress_blocks demo (demo_decompress_session cb_64kb)
     [[3, 0, 0, 0, 1, 5, 6, 87, 216, 194, 155],
      [6, 0, 0, 0x80, 5, 6, 5, 5, 5, 5, 94, 117, 29, 73],
      [0, 0, 0, 0x80, 197, 157, 28, 129]]
     [0, 0, 0, 0, 0, 0, 0, 0] 8 =
   Some ([[5, 5, 5, 5, 5, 5], [5, 6, 5, 5, 5, 5], []],
         (demo_decompress_session cb_64kb)\<lparr>xxh := 2787255632\<rparr>)"
  by (simp add: read_block_def lz4_block_header_size_def demo_eval replicate_eval)

section \<open>Round trip of a stream of blocks\<close>

text \<open>
  C1. Let the block compressor keep its contract. \<open>lz4_init\<close> creates a session for each of
  the four size classes, whatever the level and the two checksum flags, and
  \<open>lz4_init_decompress\<close> creates a session from its descriptor. Take any list of blocks, each
  of at most \<open>block_size\<close> bytes, the empty block and the empty list included; a destination
  buffer that holds each block raw with its header and leaves the compressor at least
  \<^verbatim>\<open>LZ4_compressBound\<close> of the block's length; and an output buffer that holds each block.
  Then compressing the blocks one after the other with \<open>lz4_compress_block\<close> succeeds, and
  decoding the encoded blocks one after the other with \<open>lz4_decompress\<close> gives the original
  blocks back, byte for byte.
\<close>

theorem lz4_roundtrip:
  assumes ok: "block_codec_ok P"
    and dest: "length dest = unat dest_len" "dest_len < 0x80000000"
    and out: "length out = unat out_len" "out_len < 0x80000000"
  shows "(sz = s64kb \<or> sz = s256kb \<or> sz = s1mb \<or> sz = s4mb \<longrightarrow>
            lz4_init P lv sz bc cc r0 m \<noteq> None) \<and>
         (lz4_init P lv sz bc cc r0 m = Some l \<longrightarrow>
            (\<exists>d. lz4_init_decompress P (header l) (header_size l) h0 r1 = Some (Some d) \<and>
                 ((\<forall>b \<in> set bs.
                     length b \<le> unat (lz4_block_size l) \<and>
                     length b + unat (lz4_block_header_size l) \<le> unat dest_len \<and>
                     LZ4_compressBound P (int (length b)) \<le>
                       sint (dest_len - lz4_block_header_size l) \<and>
                     length b \<le> unat out_len) \<longrightarrow>
                  (\<exists>encs l' d'.
                     compress_blocks P l bs dest dest_len = Some (encs, l') \<and>
                     decompress_blocks P d encs out out_len = Some (bs, d')))))"
proof (intro conjI impI)
  assume "sz = s64kb \<or> sz = s256kb \<or> sz = s1mb \<or> sz = s4mb"
  then show "lz4_init P lv sz bc cc r0 m \<noteq> None" by (rule lz4_init_total)
next
  assume i: "lz4_init P lv sz bc cc r0 m = Some l"
  from lz4_init_decompress_total [OF i, of h0 r1] obtain d where
    d: "lz4_init_decompress P (header l) (header_size l) h0 r1 = Some (Some d)" by blast
  note f = lz4_init_fields [OF i]
  note g = lz4_init_decompress_of_init [OF i d]
  from f have ctx: "ctx l \<noteq> None" by simp
  from f have bhl: "block_header_size l = 4 + (if block_checksum l then 4 else 0)" by simp
  from f g have bcd: "block_checksum d = block_checksum l" by simp
  from g have bhd: "block_header_size d = (if block_checksum d then 4 else 0)" by simp
  from f have "block_size l = 65536 \<or> block_size l = 262144 \<or> block_size l = 1048576 \<or>
    block_size l = 4194304" by (auto split: if_splits)
  then have bs4: "unat (block_size l) \<le> 4194304" by auto
  have "\<exists>encs l' d'.
          compress_blocks P l bs dest dest_len = Some (encs, l') \<and>
          decompress_blocks P d encs out out_len = Some (bs, d')"
    if a: "\<forall>b \<in> set bs.
              length b \<le> unat (lz4_block_size l) \<and>
              length b + unat (lz4_block_header_size l) \<le> unat dest_len \<and>
              LZ4_compressBound P (int (length b)) \<le>
                sint (dest_len - lz4_block_header_size l) \<and>
              length b \<le> unat out_len"
  proof -
    from a bs4 have blocks:
      "\<forall>b \<in> set bs. length b \<le> 4194304 \<and> length b \<le> unat out_len \<and>
                   length b + unat (block_header_size l) \<le> unat dest_len \<and>
                   LZ4_compressBound P (int (length b)) \<le> sint (dest_len - block_header_size l)"
      by (auto simp: lz4_block_size_def lz4_block_header_size_def)
    from roundtrip_blocks [OF ok ctx bhl bcd bhd blocks dest out] show ?thesis .
  qed
  with d show "\<exists>d. lz4_init_decompress P (header l) (header_size l) h0 r1 = Some (Some d) \<and>
                 ((\<forall>b \<in> set bs.
                     length b \<le> unat (lz4_block_size l) \<and>
                     length b + unat (lz4_block_header_size l) \<le> unat dest_len \<and>
                     LZ4_compressBound P (int (length b)) \<le>
                       sint (dest_len - lz4_block_header_size l) \<and>
                     length b \<le> unat out_len) \<longrightarrow>
                  (\<exists>encs l' d'.
                     compress_blocks P l bs dest dest_len = Some (encs, l') \<and>
                     decompress_blocks P d encs out out_len = Some (bs, d')))"
    by blast
qed

text \<open>
  On the small instance, with both checksums on: a stream of three blocks, one that
  compresses, one that is stored raw and the empty one, encoded into a destination of 32
  bytes and decoded into an output buffer of 8 bytes.
\<close>

theorem lz4_roundtrip_witness:
  "block_codec_ok demo \<and>
   length demo_dest = unat (32 :: uint32_t) \<and> (32 :: uint32_t) < 0x80000000 \<and>
   length [0 :: uint8_t, 0, 0, 0, 0, 0, 0, 0] = unat (8 :: uint32_t) \<and>
   (8 :: uint32_t) < 0x80000000 \<and>
   lz4_init demo 1 s64kb True True demo_r0 demo_m = Some (demo_session True True) \<and>
   lz4_init_decompress demo (header (demo_session True True))
     (header_size (demo_session True True)) demo_h0 demo_r0 =
     Some (Some (demo_decompress_session cb_64kb)) \<and>
   (\<exists>encs l' d'.
      compress_blocks demo (demo_session True True)
        [[5, 5, 5, 5, 5, 5], [5, 6, 5, 5, 5, 5], []] demo_dest 32 = Some (encs, l') \<and>
      decompress_blocks demo (demo_decompress_session cb_64kb) encs
        [0, 0, 0, 0, 0, 0, 0, 0] 8 = Some ([[5, 5, 5, 5, 5, 5], [5, 6, 5, 5, 5, 5], []], d')) \<and>
   compress_blocks demo (demo_session True True) [[5, 5, 5, 5, 5, 5], [5, 6, 5, 5, 5, 5], []]
     demo_dest 32 =
     Some ([[3, 0, 0, 0, 1, 5, 6, 87, 216, 194, 155],
            [6, 0, 0, 0x80, 5, 6, 5, 5, 5, 5, 94, 117, 29, 73],
            [0, 0, 0, 0x80, 197, 157, 28, 129]],
           (demo_session True True)\<lparr>xxh := 3252611734, ctx := Some 3\<rparr>) \<and>
   decompress_blocks demo (demo_decompress_session cb_64kb)
     [[3, 0, 0, 0, 1, 5, 6, 87, 216, 194, 155],
      [6, 0, 0, 0x80, 5, 6, 5, 5, 5, 5, 94, 117, 29, 73],
      [0, 0, 0, 0x80, 197, 157, 28, 129]]
     [0, 0, 0, 0, 0, 0, 0, 0] 8 =
     Some ([[5, 5, 5, 5, 5, 5], [5, 6, 5, 5, 5, 5], []],
           (demo_decompress_session cb_64kb)\<lparr>xxh := 2787255632\<rparr>)"
proof -
  have h1: "length demo_dest = unat (32 :: uint32_t)" by (simp add: demo_dest_def)
  have h2: "(32 :: uint32_t) < 0x80000000" by simp
  have h3: "length [0 :: uint8_t, 0, 0, 0, 0, 0, 0, 0] = unat (8 :: uint32_t)" by simp
  have h4: "(8 :: uint32_t) < 0x80000000" by simp
  have i: "lz4_init demo 1 s64kb True True demo_r0 demo_m = Some (demo_session True True)"
    by (rule demo_init)
  have d: "lz4_init_decompress demo (header (demo_session True True))
     (header_size (demo_session True True)) demo_h0 demo_r0 =
     Some (Some (demo_decompress_session cb_64kb))"
    using demo_init_decompress(4) by (simp add: demo_session_eq)
  have blocks: "\<forall>b \<in> set [[5, 5, 5, 5, 5, 5], [5, 6, 5, 5, 5, 5], [] :: buffer].
     length b \<le> unat (lz4_block_size (demo_session True True)) \<and>
     length b + unat (lz4_block_header_size (demo_session True True)) \<le> unat (32 :: uint32_t) \<and>
     LZ4_compressBound demo (int (length b)) \<le>
       sint (32 - lz4_block_header_size (demo_session True True)) \<and>
     length b \<le> unat (8 :: uint32_t)"
    by (simp add: lz4_block_size_def lz4_block_header_size_def demo_session_eq demo_sel)
  note t = lz4_roundtrip [OF demo_codec_ok h1 h2 h3 h4, where lv = 1 and sz = s64kb
      and bc = True and cc = True and ?r0.0 = demo_r0 and m = demo_m
      and l = "demo_session True True" and ?h0.0 = demo_h0 and ?r1.0 = demo_r0
      and bs = "[[5, 5, 5, 5, 5, 5], [5, 6, 5, 5, 5, 5], []]"]
  from t i d blocks have r: "\<exists>encs l' d'.
      compress_blocks demo (demo_session True True)
        [[5, 5, 5, 5, 5, 5], [5, 6, 5, 5, 5, 5], []] demo_dest 32 = Some (encs, l') \<and>
      decompress_blocks demo (demo_decompress_session cb_64kb) encs
        [0, 0, 0, 0, 0, 0, 0, 0] 8 = Some ([[5, 5, 5, 5, 5, 5], [5, 6, 5, 5, 5, 5], []], d')"
    by auto
  from r demo_codec_ok h1 h2 h3 h4 i d demo_compress_blocks demo_decompress_blocks
  show ?thesis by blast
qed

section \<open>The header size of a session\<close>

text \<open>
  C2, as the code has it. A session created by \<open>lz4_init\<close> has
  \<open>block_header_size = 4 + (if block_checksum then 4 else 0)\<close>. A session created by
  \<open>lz4_init_decompress\<close> has \<open>block_header_size = (if block_checksum then 4 else 0)\<close>: the
  four bytes of the length field, which the caller of \<open>lz4_decompress\<close> reads, are not
  counted. A decompression session created from the descriptor of a compression session
  has the flags of that session and a \<open>block_header_size\<close> that is smaller by 4.
\<close>

theorem block_header_size_of_session:
  "(lz4_init P lv sz bc cc r0 m = Some l \<longrightarrow> block_header_size l = 4 + (if bc then 4 else 0)) \<and>
   (lz4_init_decompress P hdr hs h0 r1 = Some (Some d) \<longrightarrow>
      block_header_size d = (if block_checksum d then 4 else 0)) \<and>
   (lz4_init P lv sz bc cc r0 m = Some l \<and>
    lz4_init_decompress P (header l) (header_size l) h0 r1 = Some (Some d') \<longrightarrow>
      block_checksum d' = bc \<and> content_checksum d' = cc \<and>
      block_header_size l = block_header_size d' + 4)"
proof (intro conjI impI)
  assume "lz4_init P lv sz bc cc r0 m = Some l"
  from lz4_init_fields [OF this] show "block_header_size l = 4 + (if bc then 4 else 0)"
    by simp
next
  assume "lz4_init_decompress P hdr hs h0 r1 = Some (Some d)"
  from lz4_init_decompress_fields [OF this]
  show "block_header_size d = (if block_checksum d then 4 else 0)"
    by auto
next
  assume a: "lz4_init P lv sz bc cc r0 m = Some l \<and>
    lz4_init_decompress P (header l) (header_size l) h0 r1 = Some (Some d')"
  then have i: "lz4_init P lv sz bc cc r0 m = Some l" 
    and d: "lz4_init_decompress P (header l) (header_size l) h0 r1 = Some (Some d')" by simp_all
  from lz4_init_decompress_of_init [OF i d] lz4_init_fields [OF i]
  show "block_checksum d' = bc" "content_checksum d' = cc"
    "block_header_size l = block_header_size d' + 4"
    by simp_all
qed

theorem block_header_size_of_session_witness:
  "lz4_init demo 1 s64kb True False demo_r0 demo_m = Some (demo_session True False) \<and>
   lz4_init_decompress demo b_64kb 7 demo_h0 demo_r0 = Some (Some (demo_decompress_session b_64kb)) \<and>
   header (demo_session True False) = b_64kb \<and>
   block_header_size (demo_session True False) = 8 \<and>
   block_header_size (demo_decompress_session b_64kb) = 4 \<and>
   block_checksum (demo_decompress_session b_64kb)"
  using block_header_size_of_session [of demo 1 s64kb True False demo_r0 demo_m
      "demo_session True False" b_64kb 7 demo_h0 demo_r0 "demo_decompress_session b_64kb"
      "demo_decompress_session b_64kb"]
  by (simp add: demo_init demo_init_decompress demo_session_eq)

text \<open>
  The decompression session created from the descriptor for 64KB blocks without checksums
  has \<open>block_header_size = 0\<close>, not 4, and differs in it from the compression session with
  the same flags.
\<close>

theorem block_header_size_decompress_counterexample:
  "lz4_init_decompress demo hdr_64kb 7 demo_h0 demo_r0 =
     Some (Some (demo_decompress_session hdr_64kb)) \<and>
   block_header_size (demo_decompress_session hdr_64kb) \<noteq>
     4 + (if block_checksum (demo_decompress_session hdr_64kb) then 4 else 0) \<and>
   lz4_init demo 1 s64kb False False demo_r0 demo_m = Some (demo_session False False) \<and>
   block_checksum (demo_decompress_session hdr_64kb) = block_checksum (demo_session False False) \<and>
   content_checksum (demo_decompress_session hdr_64kb) =
     content_checksum (demo_session False False) \<and>
   block_header_size (demo_decompress_session hdr_64kb) \<noteq>
     block_header_size (demo_session False False)"
  by (simp add: demo_init demo_init_decompress demo_session_eq demo_decompress_session_eq)

section \<open>The content accumulator at session creation\<close>

text \<open>
  C3. \<open>lz4_init\<close> leaves the content accumulator as the allocation holds it: it never calls
  \<^verbatim>\<open>XXH32_reset\<close>, whatever the content-checksum flag. \<open>lz4_init_decompress\<close> resets the
  accumulator with seed 0 when the descriptor has the content checksum.
\<close>

theorem lz4_init_accumulator:
  "(lz4_init P lv sz bc cc r0 m = Some l \<longrightarrow> xxh l = xxh r0) \<and>
   (lz4_init_decompress P hdr hs h0 r1 = Some (Some d) \<longrightarrow>
      xxh d = (if content_checksum d then XXH32_reset P (xxh r1) 0 else xxh r1))"
proof (intro conjI impI)
  assume "lz4_init P lv sz bc cc r0 m = Some l"
  from lz4_init_fields [OF this] show "xxh l = xxh r0" by simp
next
  assume "lz4_init_decompress P hdr hs h0 r1 = Some (Some d)"
  from lz4_init_decompress_fields [OF this]
  show "xxh d = (if content_checksum d then XXH32_reset P (xxh r1) 0 else xxh r1)"
    by auto
qed

text \<open>
  On the small instance the accumulator of a fresh compression session with the content
  checksum holds the \<open>0xDEADBEEF\<close> of the allocation, where a reset gives \<open>0x811C9DC5\<close>, as
  the fresh decompression session has it.
\<close>

theorem lz4_init_accumulator_witness:
  "lz4_init demo 1 s64kb False True demo_r0 demo_m = Some (demo_session False True) \<and>
   xxh demo_r0 = 0xDEADBEEF \<and>
   xxh (demo_session False True) = 0xDEADBEEF \<and>
   XXH32_reset demo (xxh demo_r0) 0 = 0x811C9DC5 \<and>
   lz4_init_decompress demo c_64kb 7 demo_h0 demo_r0 = Some (Some (demo_decompress_session c_64kb)) \<and>
   xxh (demo_decompress_session c_64kb) = 0x811C9DC5"
  using lz4_init_accumulator [of demo 1 s64kb False True demo_r0 demo_m
      "demo_session False True" c_64kb 7 demo_h0 demo_r0 "demo_decompress_session c_64kb"]
  by (simp add: demo_init demo_init_decompress demo_decompress_session_eq demo_session_eq
      demo_r0_sel demo_sel)

section \<open>A block the compressor cannot fit\<close>

text \<open>
  C4, as the code has it. The block compressors report an output that does not fit by the
  result 0, which is what \<^verbatim>\<open>lz4_compress_appending_to_buffer\<close> of the same file tests for
  (\<^verbatim>\<open>compressed_data_size <= 0\<close>, "Compression failed"). For a block of positive length the
  test \<^verbatim>\<open>compressed_size >= src_len\<close> of line 184 is then false: \<open>lz4_compress_block\<close> does
  not store the block raw. It writes the length field 0, which is the terminal marker of the
  stream, and returns \<open>block_header_size\<close>.
\<close>

theorem lz4_compress_block_on_failure:
  assumes "lz4_compress P l src src_len dest 4 (dest_len - block_header_size l) =
             Some (0, dest1, l2)"
    and "0 < src_len"
    and "4 + (if block_checksum l then 4 else 0) \<le> length dest"
  shows "\<exists>dest' l'.
           lz4_compress_block P l src src_len dest dest_len =
             Some (block_header_size l, dest', l') \<and>
           take 4 dest' = [0, 0, 0, 0] \<and>
           le32_word (take 4 dest') \<noteq> src_len OR 0x80000000"
proof -
  have "src_len OR 0x80000000 \<noteq> 0"
  proof
    assume e: "src_len OR 0x80000000 = 0"
    have "(src_len OR 0x80000000) AND 0x80000000 = 0" unfolding e by simp
    with hb2 [of src_len] show False by blast
  qed
  then have "le32_word (le32_bytes 0) \<noteq> src_len OR 0x80000000"
    unfolding le32_word_bytes by simp
  then show ?thesis
    using assms(3)
    unfolding lz4_compress_block_compressed [OF assms(1) assms(2), simplified, OF assms(3)]
    by (simp add: le32_bytes_0 length_le32_bytes)
qed

text \<open>
  On the small instance, six bytes that take seven bytes compressed, with a destination of
  ten bytes: the six bytes of capacity left after the length field are too few for the
  compressor, though enough for the raw block. The block written is \<open>00 00 00 00\<close>.
\<close>

theorem lz4_compress_block_on_failure_witness:
  "lz4_compress demo (demo_session False False) [5, 6, 5, 5, 5, 5] 6
     [9, 9, 9, 9, 9, 9, 9, 9, 9, 9] 4
     (10 - block_header_size (demo_session False False)) =
     Some (0, [9, 9, 9, 9, 9, 9, 9, 9, 9, 9], (demo_session False False)\<lparr>ctx := Some 1\<rparr>) \<and>
   (0 :: uint32_t) < 6 \<and>
   (\<exists>dest' l'.
      lz4_compress_block demo (demo_session False False) [5, 6, 5, 5, 5, 5] 6
        [9, 9, 9, 9, 9, 9, 9, 9, 9, 9] 10 =
        Some (block_header_size (demo_session False False), dest', l') \<and>
      take 4 dest' = [0, 0, 0, 0] \<and>
      le32_word (take 4 dest') \<noteq> 6 OR 0x80000000) \<and>
   lz4_compress_block demo (demo_session False False) [5, 6, 5, 5, 5, 5] 6
     [9, 9, 9, 9, 9, 9, 9, 9, 9, 9] 10 =
     Some (4, [0, 0, 0, 0, 9, 9, 9, 9, 9, 9], (demo_session False False)\<lparr>ctx := Some 1\<rparr>)"
proof -
  have c: "lz4_compress demo (demo_session False False) [5, 6, 5, 5, 5, 5] 6
     [9, 9, 9, 9, 9, 9, 9, 9, 9, 9] 4
     (10 - block_header_size (demo_session False False)) =
     Some (0, [9, 9, 9, 9, 9, 9, 9, 9, 9, 9], (demo_session False False)\<lparr>ctx := Some 1\<rparr>)"
    by (rule demo_compress_fail)
  have pos: "(0 :: uint32_t) < 6" by simp
  have fit: "4 + (if block_checksum (demo_session False False) then 4 else 0)
    \<le> length [9 :: uint8_t, 9, 9, 9, 9, 9, 9, 9, 9, 9]"
    by (simp add: demo_session_eq)
  from lz4_compress_block_on_failure [OF c pos fit] c pos demo_compress_block_fail
  show ?thesis by blast
qed

section \<open>Recognising a descriptor: results\<close>

text \<open>
  C5. For a header of \<open>header_size\<close> bytes and a structure to fill, \<open>lz4_check_header\<close>
  succeeds exactly when the header is 7 bytes long, its first four bytes are the magic
  prefix and its last three bytes are one of the catalogued suffixes; on every other input
  it returns \<^verbatim>\<open>false\<close>. The catalogue has 16 distinct suffixes.
\<close>

theorem lz4_check_header_recognises:
  assumes len: "length header' = unat header_size'"
  shows "((\<exists>h. lz4_check_header P (Some r) header' header_size' = Some (Some h)) \<longleftrightarrow>
            length header' = 7 \<and> take 4 header' = magic_prefix \<and>
            drop 4 header' \<in> set descriptor_suffixes) \<and>
         (\<not> (length header' = 7 \<and> take 4 header' = magic_prefix \<and>
             drop 4 header' \<in> set descriptor_suffixes) \<longrightarrow>
            lz4_check_header P (Some r) header' header_size' = Some None) \<and>
         length descriptor_suffixes = 16 \<and> distinct descriptor_suffixes"
proof (cases "header_size' = 7")
  case True
  with len have "length header' = 7" by simp
  then obtain a b c d e f g where h: "header' = [a, b, c, d, e, f, g]"
    by (rule length7E)
  have cat: "length descriptor_suffixes = 16 \<and> distinct descriptor_suffixes"
    by (simp add: descriptor_suffixes_def descriptors_def descriptor_defs)
  from check_header_cases [of P r a b c d e f g] check_header_defined [of P r a b c d e f g]
  show ?thesis unfolding h True using cat by auto
next
  case False
  have cat: "length descriptor_suffixes = 16 \<and> distinct descriptor_suffixes"
    by (simp add: descriptor_suffixes_def descriptors_def descriptor_defs)
  have "length header' \<noteq> 7"
  proof
    assume "length header' = 7"
    with len have "word_of_nat (unat header_size') = (word_of_nat 7 :: uint32_t)" by simp
    with False show False by simp
  qed
  with False cat show ?thesis by (simp add: check_header_wrong_size)
qed

text \<open>
  The descriptor for 64KB blocks without checksums is recognised; seven zero bytes, the same
  descriptor with the lowest bit of its last byte flipped, and its first six bytes alone are
  rejected.
\<close>

theorem lz4_check_header_recognises_witness:
  "lz4_check_header demo (Some demo_h0) hdr_64kb 7 \<noteq> Some None \<and>
   lz4_check_header demo (Some demo_h0) [0, 0, 0, 0, 0, 0, 0] 7 = Some None \<and>
   lz4_check_header demo (Some demo_h0) [0x04, 0x22, 0x4d, 0x18, 0x60, 0x40, 0x83] 7 = Some None \<and>
   lz4_check_header demo (Some demo_h0) [0x04, 0x22, 0x4d, 0x18, 0x60, 0x40] 6 = Some None"
  using lz4_check_header_recognises [of hdr_64kb 7 demo demo_h0]
    lz4_check_header_recognises [of "[0, 0, 0, 0, 0, 0, 0]" 7 demo demo_h0]
    lz4_check_header_recognises [of "[0x04, 0x22, 0x4d, 0x18, 0x60, 0x40, 0x83]" 7 demo demo_h0]
    lz4_check_header_recognises [of "[0x04, 0x22, 0x4d, 0x18, 0x60, 0x40]" 6 demo demo_h0]
  by (auto simp add: descriptor_suffixes_def descriptors_def descriptor_defs magic_prefix_def)

section \<open>A block that does not shrink\<close>

text \<open>
  C6. When the size \<open>lz4_compress\<close> returns is at least the raw size \<open>src_len\<close>, and the
  destination buffer holds the length field, \<open>src_len\<close> bytes and the block checksum if
  it is on, \<open>lz4_compress_block\<close> stores the block raw: the four bytes of the length field
  are those of \<open>src_len OR 0x80000000\<close>, the \<open>src_len\<close> bytes after them are the input, and
  the value returned is \<open>src_len + block_header_size\<close>.
\<close>

theorem lz4_compress_block_stores_raw:
  assumes "lz4_compress P l src src_len dest 4 (dest_len - block_header_size l) =
             Some (csize, dest1, l2)"
    and "src_len \<le> csize"
    and "4 + unat src_len + (if block_checksum l then 4 else 0) \<le> length dest"
  shows "\<exists>dest' l'.
           lz4_compress_block P l src src_len dest dest_len =
             Some (src_len + block_header_size l, dest', l') \<and>
           take 4 dest' = le32_bytes (src_len OR 0x80000000) \<and>
           le32_word (take 4 dest') = src_len OR 0x80000000 \<and>
           take (unat src_len) (drop 4 dest') = take (unat src_len) src"
proof -
  from lz4_compress_Some [OF assms(1)] have "unat src_len \<le> length src" by simp
  then show ?thesis
    unfolding lz4_compress_block_raw [OF assms]
    by (simp add: length_le32_bytes le32_word_bytes)
qed

text \<open>
  On the small instance the six bytes 5, 6, 5, 5, 5, 5 take seven bytes compressed and are
  stored raw, with the length field \<open>06 00 00 80\<close> and the block checksum after them.
\<close>

theorem lz4_compress_block_stores_raw_witness:
  "lz4_compress demo (demo_session True True) [5, 6, 5, 5, 5, 5] 6
     [0, 0, 0, 0, 0, 0, 0, 0, 0, 0, 0, 0, 0, 0, 0, 0, 0, 0, 0, 0] 4
     (20 - block_header_size (demo_session True True)) =
     Some (7, [0, 0, 0, 0, 0, 5, 6, 5, 5, 5, 5, 0, 0, 0, 0, 0, 0, 0, 0, 0],
           (demo_session True True)\<lparr>ctx := Some 1\<rparr>) \<and>
   (6 :: uint32_t) \<le> 7 \<and>
   (\<exists>dest' l'.
      lz4_compress_block demo (demo_session True True) [5, 6, 5, 5, 5, 5] 6
        [0, 0, 0, 0, 0, 0, 0, 0, 0, 0, 0, 0, 0, 0, 0, 0, 0, 0, 0, 0] 20 =
        Some (6 + block_header_size (demo_session True True), dest', l') \<and>
      take 4 dest' = le32_bytes (6 OR 0x80000000) \<and>
      le32_word (take 4 dest') = 6 OR 0x80000000 \<and>
      take (unat (6 :: uint32_t)) (drop 4 dest') = take (unat (6 :: uint32_t)) [5, 6, 5, 5, 5, 5]) \<and>
   lz4_compress_block demo (demo_session True True) [5, 6, 5, 5, 5, 5] 6
     [0, 0, 0, 0, 0, 0, 0, 0, 0, 0, 0, 0, 0, 0, 0, 0, 0, 0, 0, 0] 20 =
     Some (14, [6, 0, 0, 0x80, 5, 6, 5, 5, 5, 5, 94, 117, 29, 73, 0, 0, 0, 0, 0, 0],
           (demo_session True True)\<lparr>xxh := 894245220, ctx := Some 1\<rparr>)"
proof -
  have c: "lz4_compress demo (demo_session True True) [5, 6, 5, 5, 5, 5] 6
     [0, 0, 0, 0, 0, 0, 0, 0, 0, 0, 0, 0, 0, 0, 0, 0, 0, 0, 0, 0] 4
     (20 - block_header_size (demo_session True True)) =
     Some (7, [0, 0, 0, 0, 0, 5, 6, 5, 5, 5, 5, 0, 0, 0, 0, 0, 0, 0, 0, 0],
           (demo_session True True)\<lparr>ctx := Some 1\<rparr>)"
    by (rule demo_compress_raw)
  have le: "(6 :: uint32_t) \<le> 7" by simp
  have fit: "4 + unat (6 :: uint32_t) + (if block_checksum (demo_session True True) then 4 else 0)
    \<le> length [0 :: uint8_t, 0, 0, 0, 0, 0, 0, 0, 0, 0, 0, 0, 0, 0, 0, 0, 0, 0, 0, 0]"
    by (simp add: demo_session_eq)
  from lz4_compress_block_stores_raw [OF c le fit] c le demo_compress_block_raw
  show ?thesis by blast
qed

section \<open>The block checksum\<close>




section \<open>Finishing a stream: results\<close>

text \<open>
  C8. \<open>lz4_finish\<close> on a compression session (its context is not null) writes the four zero
  bytes of the terminal marker, and after them the four bytes of the content digest when
  the content checksum is on; it returns 8 with the content checksum and 4 without. On a
  decompression session (null context) it returns -500, the checksum error, exactly when the
  content checksum is on and the four stored bytes differ from the accumulated digest, and 0
  otherwise, leaving the buffer as it is.
\<close>

theorem lz4_finish_result:
  "(ctx l \<noteq> None \<and> \<not> content_checksum l \<and> 4 \<le> length dest \<longrightarrow>
      lz4_finish P l dest = Some (4, [0, 0, 0, 0] @ drop 4 dest)) \<and>
   (ctx l \<noteq> None \<and> content_checksum l \<and> 8 \<le> length dest \<longrightarrow>
      lz4_finish P l dest =
        Some (8, [0, 0, 0, 0] @ le32_bytes (XXH32_digest P (xxh l)) @ drop 8 dest)) \<and>
   (ctx l = None \<and> \<not> content_checksum l \<longrightarrow> lz4_finish P l dest = Some (0, dest)) \<and>
   (ctx l = None \<and> content_checksum l \<and> 4 \<le> length dest \<longrightarrow>
      lz4_finish P l dest =
        Some (if le32_word (take 4 dest) \<noteq> XXH32_digest P (xxh l) then - 500 else 0, dest))"
  unfolding le32_bytes_0 [symmetric]
  by (auto simp: lz4_finish_def write_little_endian_32_def read_little_endian_32_def
      store_def load_def length_le32_bytes)

text \<open>
  The four cases on the small instance: a compression session without and with the content
  checksum (whose accumulator holds \<open>0xDEADBEEF\<close>), and a decompression session without the
  content checksum, with the stored digest equal to the accumulated one, and with one bit of
  it changed.
\<close>

theorem lz4_finish_result_witness:
  "ctx (demo_session False False) \<noteq> None \<and> ctx (demo_decompress_session c_64kb) = None \<and>
   lz4_finish demo (demo_session False False) [7, 7, 7, 7, 7, 7, 7, 7] =
     Some (4, [0, 0, 0, 0, 7, 7, 7, 7]) \<and>
   lz4_finish demo (demo_session False True) [7, 7, 7, 7, 7, 7, 7, 7] =
     Some (8, [0, 0, 0, 0, 0xEF, 0xBE, 0xAD, 0xDE]) \<and>
   lz4_finish demo (demo_decompress_session hdr_64kb) [7, 7, 7, 7] = Some (0, [7, 7, 7, 7]) \<and>
   lz4_finish demo (demo_decompress_session c_64kb) [0xC5, 0x9D, 0x1C, 0x81] =
     Some (0, [0xC5, 0x9D, 0x1C, 0x81]) \<and>
   lz4_finish demo (demo_decompress_session c_64kb) [0xC5, 0x9D, 0x1C, 0x80] =
     Some (- 500, [0xC5, 0x9D, 0x1C, 0x80])"
  using lz4_finish_result [of "demo_session False False" "[7, 7, 7, 7, 7, 7, 7, 7]" demo]
    lz4_finish_result [of "demo_session False True" "[7, 7, 7, 7, 7, 7, 7, 7]" demo]
    lz4_finish_result [of "demo_decompress_session hdr_64kb" "[7, 7, 7, 7]" demo]
    lz4_finish_result [of "demo_decompress_session c_64kb" "[0xC5, 0x9D, 0x1C, 0x81]" demo]
    lz4_finish_result [of "demo_decompress_session c_64kb" "[0xC5, 0x9D, 0x1C, 0x80]" demo]
  by (simp add: demo_session_eq demo_decompress_session_eq le32_bytes_def le32_word_def demo_def)

section \<open>The content accumulator while streaming\<close>



section \<open>Decoding a raw block\<close>

text \<open>
  C10. With \<open>compressed\<close> false the result of \<open>lz4_decompress\<close> does not depend on
  \<open>dest_len\<close>. When the source and the destination buffer hold \<open>src_len\<close> bytes (after the
  shrink by 4 of a session with block checksums, whose checksum matches) it copies these
  bytes to the destination and returns their count, whatever \<open>dest_len\<close> is: a raw payload
  longer than \<open>dest_len\<close> is not rejected.
\<close>

theorem lz4_decompress_raw_ignores_dest_len:
  "lz4_decompress P l src src_len dest dest_len False =
     lz4_decompress P l src src_len dest dest_len' False \<and>
   (\<not> block_checksum l \<and> unat src_len \<le> length src \<and> unat src_len \<le> length dest \<longrightarrow>
      (\<exists>l'. lz4_decompress P l src src_len dest dest_len False =
         Some (sint src_len, take (unat src_len) src @ drop (unat src_len) dest, l'))) \<and>
   (block_checksum l \<and> 4 \<le> unat src_len \<and> unat src_len \<le> length src \<and>
    unat src_len - 4 \<le> length dest \<and>
    XXH32_hash P (take (unat src_len - 4) src) 0 =
      le32_word (take 4 (drop (unat src_len - 4) src)) \<longrightarrow>
      (\<exists>l'. lz4_decompress P l src src_len dest dest_len False =
         Some (sint (src_len - 4),
               take (unat src_len - 4) src @ drop (unat src_len - 4) dest, l')))"
proof (intro conjI impI)
  define g where "g k = lz4_decompress_payload P l src k dest 0 False" for k
  have p: "lz4_decompress_payload P l src k dest x False = g k" for k x
    by (simp add: g_def lz4_decompress_payload_def)
  show "lz4_decompress P l src src_len dest dest_len False =
     lz4_decompress P l src src_len dest dest_len' False"
    by (simp add: lz4_decompress_def p cong: if_cong Option.bind_cong)
next
  assume "\<not> block_checksum l \<and> unat src_len \<le> length src \<and> unat src_len \<le> length dest"
  then show "\<exists>l'. lz4_decompress P l src src_len dest dest_len False =
         Some (sint src_len, take (unat src_len) src @ drop (unat src_len) dest, l')"
    by (simp add: lz4_decompress_unchecked lz4_decompress_payload_raw)
next
  assume a: "block_checksum l \<and> 4 \<le> unat src_len \<and> unat src_len \<le> length src \<and>
    unat src_len - 4 \<le> length dest \<and>
    XXH32_hash P (take (unat src_len - 4) src) 0 =
      le32_word (take 4 (drop (unat src_len - 4) src))"
  then have "4 \<le> src_len" by (simp add: word_le_nat_alt)
  then have u: "unat (src_len - 4) = unat src_len - 4" by (simp add: unat_sub)
  from a have "unat (src_len - 4) \<le> length src" "unat (src_len - 4) \<le> length dest"
    unfolding u by auto
  from lz4_decompress_payload_raw [OF this, of P l dest_len] a
  show "\<exists>l'. lz4_decompress P l src src_len dest dest_len False =
         Some (sint (src_len - 4),
               take (unat src_len - 4) src @ drop (unat src_len - 4) dest, l')"
    by (simp add: lz4_decompress_checked u)
qed

text \<open>
  On the small instance a raw block of six bytes is decoded with \<open>dest_len = 2\<close>: six bytes
  are copied and 6 is returned, as with \<open>dest_len = 6\<close>.
\<close>

theorem lz4_decompress_raw_ignores_dest_len_witness:
  "(2 :: uint32_t) < 6 \<and>
   lz4_decompress demo (demo_decompress_session hdr_64kb) [5, 6, 5, 5, 5, 5] 6
     [0, 0, 0, 0, 0, 0] 2 False =
     Some (6, [5, 6, 5, 5, 5, 5], demo_decompress_session hdr_64kb) \<and>
   lz4_decompress demo (demo_decompress_session hdr_64kb) [5, 6, 5, 5, 5, 5] 6
     [0, 0, 0, 0, 0, 0] 2 False =
   lz4_decompress demo (demo_decompress_session hdr_64kb) [5, 6, 5, 5, 5, 5] 6
     [0, 0, 0, 0, 0, 0] 6 False \<and>
   (\<exists>l'. lz4_decompress demo (demo_decompress_session hdr_64kb) [5, 6, 5, 5, 5, 5] 6
     [0, 0, 0, 0, 0, 0] 2 False =
     Some (sint (6 :: uint32_t), take (unat (6 :: uint32_t)) [5, 6, 5, 5, 5, 5] @
       drop (unat (6 :: uint32_t)) [0, 0, 0, 0, 0, 0], l')) \<and>
   lz4_decompress demo (demo_decompress_session cb_64kb) [5, 6, 5, 5, 5, 5, 94, 117, 29, 73] 10
     [0, 0, 0, 0, 0, 0] 2 False =
     Some (6, [5, 6, 5, 5, 5, 5], (demo_decompress_session cb_64kb)\<lparr>xxh := 1226667358\<rparr>)"
proof -
  have h: "\<not> block_checksum (demo_decompress_session hdr_64kb) \<and>
    unat (6 :: uint32_t) \<le> length [5 :: uint8_t, 6, 5, 5, 5, 5] \<and>
    unat (6 :: uint32_t) \<le> length [0 :: uint8_t, 0, 0, 0, 0, 0]"
    by (simp add: demo_decompress_session_eq)
  note t = lz4_decompress_raw_ignores_dest_len [where P = demo
      and l = "demo_decompress_session hdr_64kb" and src = "[5, 6, 5, 5, 5, 5]" and src_len = 6
      and dest = "[0, 0, 0, 0, 0, 0]" and dest_len = 2 and dest_len' = 6]
  have lt: "(2 :: uint32_t) < 6" by simp
  from t h lt demo_decompress_raw show ?thesis by blast
qed

end
